theory Spec2Isabelle
  imports Complex_Main "HOL-Library.Sublist"
begin

unbundle bit_operations_syntax

section \<open>Python strings\<close>

text \<open>
  A Python \<open>str\<close> is modelled as a \<open>string\<close>: every \<open>char\<close> stands for one code point
  below 256, so \<open>length\<close> counts what \<open>len\<close> counts on such a text.
\<close>

text \<open>\<open>str.isspace\<close> on one code point below 256.\<close>

definition is_space :: "char \<Rightarrow> bool" where
  "is_space c = (let n = of_char c :: nat in
     (9 \<le> n \<and> n \<le> 13) \<or> (28 \<le> n \<and> n \<le> 32) \<or> n = 133 \<or> n = 160)"

text \<open>\<open>s.strip()\<close>: leading and trailing white space removed.\<close>

definition lstrip :: "string \<Rightarrow> string" where
  "lstrip s = dropWhile is_space s"

definition rstrip :: "string \<Rightarrow> string" where
  "rstrip s = rev (dropWhile is_space (rev s))"

definition strip :: "string \<Rightarrow> string" where
  "strip s = rstrip (lstrip s)"

text \<open>\<open>str.lower\<close> on one code point below 256: A-Z and the Latin-1 capitals.\<close>

definition lower_char :: "char \<Rightarrow> char" where
  "lower_char c = (let n = of_char c :: nat in
     if (65 \<le> n \<and> n \<le> 90) \<or> (192 \<le> n \<and> n \<le> 222 \<and> n \<noteq> 215)
     then char_of (n + 32) else c)"

definition lower :: "string \<Rightarrow> string" where
  "lower s = map lower_char s"

text \<open>\<open>str.upper\<close>, used by the source only on the extensions pdf, docx, doc and odt.\<close>

definition upper_char :: "char \<Rightarrow> char" where
  "upper_char c = (let n = of_char c :: nat in
     if 97 \<le> n \<and> n \<le> 122 then char_of (n - 32) else c)"

definition upper :: "string \<Rightarrow> string" where
  "upper s = map upper_char s"

text \<open>\<open>s.split('.')[-1]\<close>: the text after the last dot, the whole text when there is none.\<close>

definition last_segment :: "string \<Rightarrow> string" where
  "last_segment s = rev (takeWhile (\<lambda>c. c \<noteq> CHR ''.'') (rev s))"

text \<open>\<open>sub in s\<close> on strings.\<close>

fun contains :: "string \<Rightarrow> string \<Rightarrow> bool" where
  "contains sub [] = (sub = [])"
| "contains sub (c # s) = (prefix sub (c # s) \<or> contains sub s)"

text \<open>\<open>len(s.split('\n'))\<close>.\<close>

definition line_count :: "string \<Rightarrow> nat" where
  "line_count s = Suc (length (filter (\<lambda>c. c = CHR 0x0A) s))"

section \<open>cache\_service.py\<close>

subsection \<open>Python floats\<close>

text \<open>
  A Python float is an IEEE 754 binary64 number, modelled as the real number it denotes.
  An operation on floats gives the exact result rounded to the nearest double, ties to the
  even significand. The exponent range is taken as unbounded (no overflow, no subnormal
  numbers), which covers clock values and lifetimes.
\<close>

text \<open>A double: an integer of fewer than 54 bits times a power of two.\<close>

definition is_double :: "real \<Rightarrow> bool" where
  "is_double x = (\<exists>m e :: int. \<bar>m\<bar> < 2 ^ 53 \<and> x = of_int m * 2 powr of_int e)"

text \<open>The nearest integer, the even one of two equally near.\<close>

definition round_half_even :: "real \<Rightarrow> int" where
  "round_half_even x =
     (let f = \<lfloor>x\<rfloor>; r = x - of_int f
      in if r < 1 / 2 then f else if 1 / 2 < r then f + 1 else if even f then f else f + 1)"

text \<open>
  The nearest double: in the binade of \<open>x\<close>, from \<open>2 ^ e\<close> up to \<open>2 ^ (e + 1)\<close>, the doubles
  are the multiples of \<open>2 ^ (e - 52)\<close>.
\<close>

definition round_double :: "real \<Rightarrow> real" where
  "round_double x =
     (if x = 0 then 0
      else (let q = 2 powr of_int (\<lfloor>log 2 \<bar>x\<bar>\<rfloor> - 52)
            in q * of_int (round_half_even (x / q))))"

text \<open>\<open>x + y\<close> on floats.\<close>

definition double_add :: "real \<Rightarrow> real \<Rightarrow> real" where
  "double_add x y = round_double (x + y)"

subsection \<open>InMemoryCache\<close>

text \<open>
  An entry is the tuple \<open>(value, created_at, expire_at)\<close>; the dictionary \<open>_cache\<close> is a map
  from keys to entries. \<open>time.time()\<close> is read from the caller: every operation takes the
  clock values it reads. The lock makes every operation atomic, which is how they are
  modelled.
\<close>

type_synonym 'v entry = "'v \<times> real \<times> real option"
type_synonym 'v in_memory_cache = "string \<rightharpoonup> 'v entry"

text \<open>
  \<open>set\<close>: \<open>expire_at = time.time() + ttl if ttl else None\<close>, so a ttl of \<open>None\<close> or \<open>0\<close>
  means no expiry. \<open>t_exp\<close> is the clock read for \<open>expire_at\<close>, \<open>t_created\<close> the one
  read for \<open>created_at\<close>. The sum is a float addition: \<open>cache_set_double\<close> stores what
  it gives, the double nearest to the exact sum. \<open>cache_set\<close> stores the exact sum, which
  is the same entry whenever that sum is a double; a double clock value that is within the
  exact lifetime is within the stored one.
\<close>

definition cache_set ::
  "'v in_memory_cache \<Rightarrow> string \<Rightarrow> 'v \<Rightarrow> real option \<Rightarrow> real \<Rightarrow> real \<Rightarrow> 'v in_memory_cache" where
  "cache_set c key v ttl t_exp t_created =
     (let expire_at = (case ttl of
                         None \<Rightarrow> None
                       | Some d \<Rightarrow> if d \<noteq> 0 then Some (t_exp + d) else None)
      in c(key \<mapsto> (v, t_created, expire_at)))"

definition cache_set_double ::
  "'v in_memory_cache \<Rightarrow> string \<Rightarrow> 'v \<Rightarrow> real option \<Rightarrow> real \<Rightarrow> real \<Rightarrow> 'v in_memory_cache" where
  "cache_set_double c key v ttl t_exp t_created =
     (let expire_at = (case ttl of
                         None \<Rightarrow> None
                       | Some d \<Rightarrow> if d \<noteq> 0 then Some (double_add t_exp d) else None)
      in c(key \<mapsto> (v, t_created, expire_at)))"

text \<open>
  \<open>get\<close>: a missing key gives \<open>None\<close>; an entry whose \<open>expire_at\<close> is truthy (not \<open>None\<close>,
  not \<open>0.0\<close>) and lies before the clock is deleted and gives \<open>None\<close>; otherwise the value
  is returned. The result is the returned value and the cache after the call.
\<close>

definition cache_get ::
  "'v in_memory_cache \<Rightarrow> string \<Rightarrow> real \<Rightarrow> 'v option \<times> 'v in_memory_cache" where
  "cache_get c key now =
     (case c key of
        None \<Rightarrow> (None, c)
      | Some (v, created_at, expire_at) \<Rightarrow>
          (case expire_at of
             None \<Rightarrow> (Some v, c)
           | Some e \<Rightarrow> if e \<noteq> 0 \<and> now > e then (None, c(key := None)) else (Some v, c)))"

definition cache_invalidate :: "'v in_memory_cache \<Rightarrow> string \<Rightarrow> 'v in_memory_cache" where
  "cache_invalidate c key = (if key \<in> dom c then c(key := None) else c)"

definition cache_clear :: "'v in_memory_cache \<Rightarrow> 'v in_memory_cache" where
  "cache_clear c = Map.empty"

subsection \<open>QueryCache and PartialResultCache\<close>

definition query_make_key :: "string \<Rightarrow> string \<Rightarrow> string" where
  "query_make_key chat_id query_hash = ''faq:'' @ chat_id @ '':'' @ query_hash"

definition partial_make_key :: "string \<Rightarrow> string \<Rightarrow> string" where
  "partial_make_key file_id result_type = ''partial:'' @ file_id @ '':'' @ result_type"

definition query_cache_get ::
  "'v in_memory_cache \<Rightarrow> string \<Rightarrow> string \<Rightarrow> real \<Rightarrow> 'v option \<times> 'v in_memory_cache" where
  "query_cache_get c chat_id query_hash now = cache_get c (query_make_key chat_id query_hash) now"

definition query_cache_set ::
  "'v in_memory_cache \<Rightarrow> string \<Rightarrow> string \<Rightarrow> 'v \<Rightarrow> real option \<Rightarrow> real \<Rightarrow> real
     \<Rightarrow> 'v in_memory_cache" where
  "query_cache_set c chat_id query_hash v ttl t_exp t_created =
     cache_set c (query_make_key chat_id query_hash) v ttl t_exp t_created"

definition partial_cache_get ::
  "'v in_memory_cache \<Rightarrow> string \<Rightarrow> string \<Rightarrow> real \<Rightarrow> 'v option \<times> 'v in_memory_cache" where
  "partial_cache_get c file_id result_type now =
     cache_get c (partial_make_key file_id result_type) now"

definition partial_cache_set ::
  "'v in_memory_cache \<Rightarrow> string \<Rightarrow> string \<Rightarrow> 'v \<Rightarrow> real option \<Rightarrow> real \<Rightarrow> real
     \<Rightarrow> 'v in_memory_cache" where
  "partial_cache_set c file_id result_type v ttl t_exp t_created =
     cache_set c (partial_make_key file_id result_type) v ttl t_exp t_created"

section \<open>file\_processor.py\<close>

subsection \<open>Values, exceptions and the outside world\<close>

text \<open>
  Python values that travel in the \<open>content\<close> and \<open>metadata\<close> dictionaries. A dictionary
  is an association list in insertion order. The \<open>processing_time\<close> entries (differences
  of two wall-clock reads) are left out of every result.
\<close>

datatype pyval =
    PNone
  | PBool bool
  | PInt int
  | PStr string
  | PList "pyval list"
  | PDict "(string \<times> pyval) list"

type_synonym bytes = string

datatype exn =
    ValueError string
  | AttributeError string
  | TimeoutError string
  | MemoryError string
  | JSONDecodeError string
  | OtherError string

text \<open>\<open>str(e)\<close>.\<close>

fun exn_str :: "exn \<Rightarrow> string" where
  "exn_str (ValueError m) = m"
| "exn_str (AttributeError m) = m"
| "exn_str (TimeoutError m) = m"
| "exn_str (MemoryError m) = m"
| "exn_str (JSONDecodeError m) = m"
| "exn_str (OtherError m) = m"

text \<open>What a call into a library gives back: a value, or an exception.\<close>

datatype 'a outcome = Returned 'a | Raised exn

text \<open>
  One run of \<open>psutil\<close> inside \<open>_check_system_resources\<close>: \<open>virtual_memory()\<close> raises, or
  gives \<open>memory.available\<close> in bytes; \<open>cpu_percent(interval=1)\<close>, asked only when memory
  suffices, gives a percentage or raises (\<open>None\<close>).
\<close>

datatype probe = MemoryProbeError | Reading int "real option"

record upload_file =
  filename :: "string option"
  data :: bytes

record processing_result =
  success :: bool
  content :: pyval
  metadata :: pyval
  error_message :: "string option"
  token_estimate :: nat
  chunk_count :: nat
  enhanced_processing :: bool

text \<open>What the shared cache instance holds: answers (strings) and extraction results.\<close>

datatype cached = CachedAnswer string | CachedResult processing_result

text \<open>
  The collaborators of a \<open>FileProcessor\<close>, fixed for a run: its configuration, the wall
  clock (the n-th read of \<open>time.time()\<close>), the n-th resource probe, the n-th Docling
  conversion (temporary file, \<open>DocumentConverter\<close>, \<open>convert\<close>, \<open>export_to_markdown\<close>; it
  gets the file name, the bytes, \<open>force_full_page_ocr\<close> and the language list, and gives
  the markdown and the document type, or raises), and the parsers of the basic path.
\<close>

record env =
  enhanced_processing_enabled :: bool
  max_memory_mb :: int
  clock :: "nat \<Rightarrow> real"
  psutil :: "nat \<Rightarrow> probe"
  docling :: "nat \<Rightarrow> string \<Rightarrow> bytes \<Rightarrow> bool \<Rightarrow> string list option \<Rightarrow> (string \<times> string) outcome"
  pypdf2 :: "bytes \<Rightarrow> string list outcome"
  json_loads :: "bytes \<Rightarrow> pyval outcome"
  read_csv :: "bytes \<Rightarrow> (string list \<times> pyval list) outcome"
  read_excel :: "bytes \<Rightarrow> (string list \<times> pyval list) outcome"
  decode_utf8 :: "bytes \<Rightarrow> string outcome"
  b64encode :: "bytes \<Rightarrow> string"

text \<open>
  What a run changes: the shared cache, and counters of the clock reads, resource probes
  and conversions made so far; \<open>enhanced_calls\<close> records the arguments
  \<open>(force_ocr, ocr_language)\<close> of every call of \<open>process_file_enhanced\<close>, in order.
\<close>

record world =
  cache :: "cached in_memory_cache"
  ticks :: nat
  checks :: nat
  conversions :: nat
  enhanced_calls :: "(bool \<times> string list option) list"

subsection \<open>Cache access from the processor\<close>

text \<open>
  \<open>partial_result_cache.get\<close> and \<open>.set\<close> on the shared instance. A \<open>get\<close> is given one
  clock value (the source reads the clock only when the entry has an expiry, where alone
  the value matters), a \<open>set\<close> reads the clock twice.
\<close>

definition partial_result_cache_get :: "env \<Rightarrow> string \<Rightarrow> string \<Rightarrow> world \<Rightarrow> cached option \<times> world" where
  "partial_result_cache_get E file_id result_type w =
     (case partial_cache_get (cache w) file_id result_type (clock E (ticks w)) of
        (r, c') \<Rightarrow> (r, w\<lparr>cache := c', ticks := Suc (ticks w)\<rparr>))"

definition partial_result_cache_set ::
  "env \<Rightarrow> string \<Rightarrow> string \<Rightarrow> cached \<Rightarrow> real option \<Rightarrow> world \<Rightarrow> world" where
  "partial_result_cache_set E file_id result_type v ttl w =
     w\<lparr>cache := partial_cache_set (cache w) file_id result_type v ttl
                   (clock E (ticks w)) (clock E (Suc (ticks w))),
       ticks := Suc (Suc (ticks w))\<rparr>"

text \<open>\<open>f"{x}"\<close> of an optional string.\<close>

definition fmt :: "string option \<Rightarrow> string" where
  "fmt x = (case x of None \<Rightarrow> ''None'' | Some s \<Rightarrow> s)"

definition opt_str :: "string option \<Rightarrow> pyval" where
  "opt_str x = (case x of None \<Rightarrow> PNone | Some s \<Rightarrow> PStr s)"

text \<open>\<open>ocr_language or default\<close>: \<open>None\<close> and the empty list are falsy.\<close>

definition lang_or :: "string list option \<Rightarrow> string list \<Rightarrow> string list" where
  "lang_or ocr_language dflt =
     (case ocr_language of None \<Rightarrow> dflt | Some [] \<Rightarrow> dflt | Some (l # ls) \<Rightarrow> l # ls)"

subsection \<open>FileProcessor\<close>

definition check_system_resources :: "env \<Rightarrow> world \<Rightarrow> bool \<times> world" where
  "check_system_resources E w =
     (let w' = w\<lparr>checks := Suc (checks w)\<rparr> in
      case psutil E (checks w) of
        MemoryProbeError \<Rightarrow> (True, w')
      | Reading available cpu \<Rightarrow>
          if real_of_int available / (1024 * 1024) < real_of_int (max_memory_mb E)
          then (False, w')
          else (case cpu of
                  None \<Rightarrow> (True, w')
                | Some cpu_percent \<Rightarrow> if cpu_percent > 90 then (False, w') else (True, w')))"

definition estimate_tokens :: "string \<Rightarrow> nat" where
  "estimate_tokens text = length text div 4"

definition scanned_marker :: string where
  "scanned_marker =
     ''This appears to be a scanned PDF. Enhanced OCR processing is required for text extraction.''"

text \<open>
  \<open>_fallback_pdf_processing\<close>; \<open>pypdf2\<close> gives the extracted text of each page.
  \<open>pdf_text_content\<close> is the loop over the pages and the replacement of blank text by the
  marker.
\<close>

definition pdf_text_content :: "string list \<Rightarrow> string" where
  "pdf_text_content pages =
     (let extracted = concat (map (\<lambda>p. p @ [CHR 0x0A]) pages)
      in if strip extracted = [] then scanned_marker else extracted)"

definition fallback_pdf_processing :: "env \<Rightarrow> upload_file \<Rightarrow> bytes \<Rightarrow> exn + pyval" where
  "fallback_pdf_processing E file content' =
     (case pypdf2 E content' of
        Raised e \<Rightarrow> Inl e
      | Returned pages \<Rightarrow>
          (let text_content = pdf_text_content pages
           in Inr (PDict
                [(''success'', PBool True),
                 (''content'', PDict
                    [(''text_content'', PStr text_content),
                     (''extraction_method'', PStr ''pypdf2_fallback''),
                     (''note'', PStr ''Extracted using basic PDF processing. For scanned documents, OCR processing is recommended.'')]),
                 (''metadata'', PDict
                    [(''file_name'', opt_str (filename file)),
                     (''file_size'', PInt (int (length content'))),
                     (''format'', PStr ''pdf''),
                     (''processing_method'', PStr ''pypdf2_fallback''),
                     (''pages'', PInt (int (length pages))),
                     (''extracted_chars'', PInt (int (length text_content)))]),
                 (''enhanced_processing'', PBool False)])))"

text \<open>\<open>file.filename.split('.')[-1].lower() if file.filename else ''\<close>.\<close>

definition file_ext :: "upload_file \<Rightarrow> string" where
  "file_ext file =
     (case filename file of
        None \<Rightarrow> []
      | Some name \<Rightarrow> if name = [] then [] else lower (last_segment name))"

definition enhanced_formats :: "string list" where
  "enhanced_formats =
     [''pdf'', ''docx'', ''pptx'', ''xlsx'',
      ''png'', ''jpg'', ''jpeg'', ''tiff'', ''tif'', ''bmp'', ''webp'',
      ''html'', ''htm'']"

definition should_use_enhanced_processing :: "env \<Rightarrow> upload_file \<Rightarrow> bool \<Rightarrow> bool" where
  "should_use_enhanced_processing E file force_ocr =
     (if \<not> enhanced_processing_enabled E then False
      else if force_ocr then True
      else file_ext file \<in> set enhanced_formats)"

text \<open>The \<open>ProcessingResult\<close> of a failed attempt: every other field at its default.\<close>

definition failure :: "string \<Rightarrow> bool \<Rightarrow> processing_result" where
  "failure msg enhanced =
     \<lparr>success = False, content = PNone, metadata = PNone, error_message = Some msg,
      token_estimate = 0, chunk_count = 1, enhanced_processing = enhanced\<rparr>"

text \<open>The \<open>ProcessingResult\<close> built from a finished conversion.\<close>

definition docling_result ::
  "upload_file \<Rightarrow> bytes \<Rightarrow> bool \<Rightarrow> string list option \<Rightarrow> string \<Rightarrow> string \<Rightarrow> processing_result" where
  "docling_result file content' force_ocr ocr_language markdown_content document_type =
     \<lparr>success = True,
      content = PDict
        [(''markdown_content'', PStr markdown_content),
         (''extraction_method'', PStr ''docling_ocr''),
         (''document_type'', PStr document_type),
         (''content_length'', PInt (int (length markdown_content)))],
      metadata = PDict
        [(''file_name'', opt_str (filename file)),
         (''file_size'', PInt (int (length content'))),
         (''format'', PStr ''enhanced_docling''),
         (''token_estimate'', PInt (int (estimate_tokens markdown_content))),
         (''processing_method'', PStr ''docling_ocr''),
         (''document_type'', PStr document_type),
         (''ocr_enabled'', PBool True),
         (''ocr_language'', PList (map PStr (lang_or ocr_language [''en'']))),
         (''force_ocr'', PBool force_ocr),
         (''extracted_chars'', PInt (int (length markdown_content)))],
      error_message = None,
      token_estimate = estimate_tokens markdown_content,
      chunk_count = 1,
      enhanced_processing = True\<rparr>"

text \<open>
  The \<open>try\<close> block of \<open>process_file_enhanced\<close> once the cache has missed and Docling is
  available: the resource check, then the conversion, whose result alone is stored in the
  cache; each \<open>except\<close> clause turns its exception into a failed result. With no file name
  the suffix of the temporary file cannot be computed, and the handler that logs the
  extension raises in turn.
\<close>

definition extract_enhanced ::
  "env \<Rightarrow> upload_file \<Rightarrow> bool \<Rightarrow> string list option \<Rightarrow> world \<Rightarrow> (exn + processing_result) \<times> world" where
  "extract_enhanced E file force_ocr ocr_language w =
     (case check_system_resources E w of
        (False, w1) \<Rightarrow>
          (Inr (failure ''Insufficient system resources for enhanced processing'' True), w1)
      | (True, w1) \<Rightarrow>
          (case filename file of
             None \<Rightarrow> (Inl (AttributeError ([CHR 0x27] @ ''NoneType'' @ [CHR 0x27] @ '' object has no attribute ''
                              @ [CHR 0x27] @ ''split'' @ [CHR 0x27])), w1)
           | Some name \<Rightarrow>
               (let content' = data file;
                    w2 = w1\<lparr>conversions := Suc (conversions w1)\<rparr>
                in case docling E (conversions w1) name content' force_ocr
                          (case ocr_language of None \<Rightarrow> None | Some [] \<Rightarrow> None | Some (l # ls) \<Rightarrow> Some (l # ls)) of
                     Returned (markdown_content, document_type) \<Rightarrow>
                       (let result = docling_result file content' force_ocr ocr_language
                                       markdown_content document_type
                        in (Inr result,
                            partial_result_cache_set E name ''ocr'' (CachedResult result) (Some 3600) w2))
                   | Raised (TimeoutError m) \<Rightarrow>
                       (Inr (failure (''Enhanced processing timed out: '' @ m) True), w2)
                   | Raised (MemoryError m) \<Rightarrow>
                       (Inr (failure ''Memory error during enhanced processing'' True), w2)
                   | Raised e \<Rightarrow>
                       (Inr (failure (''Enhanced processing error: '' @ exn_str e) True), w2))))"

text \<open>
  \<open>process_file_enhanced\<close> after a cache miss: without Docling a failed result, else
  the \<open>try\<close> block.
\<close>

definition on_cache_miss ::
  "env \<Rightarrow> upload_file \<Rightarrow> bool \<Rightarrow> string list option \<Rightarrow> world \<Rightarrow> (exn + processing_result) \<times> world" where
  "on_cache_miss E file force_ocr ocr_language w =
     (if \<not> enhanced_processing_enabled E
      then (Inr (failure ''Docling OCR is not available in this environment.'' False), w)
      else extract_enhanced E file force_ocr ocr_language w)"

text \<open>
  \<open>process_file_enhanced\<close>. A truthy cache entry is returned as it is; an entry that is
  not a \<open>ProcessingResult\<close> makes every caller raise on \<open>.success\<close>, which is the
  exception given here.
\<close>

definition process_file_enhanced ::
  "env \<Rightarrow> upload_file \<Rightarrow> bool \<Rightarrow> string list option \<Rightarrow> world \<Rightarrow> (exn + processing_result) \<times> world" where
  "process_file_enhanced E file force_ocr ocr_language w =
     (let w0 = w\<lparr>enhanced_calls := enhanced_calls w @ [(force_ocr, ocr_language)]\<rparr>;
          file_id = fmt (filename file)
      in case partial_result_cache_get E file_id ''ocr'' w0 of
           (Some (CachedResult r), w1) \<Rightarrow> (Inr r, w1)
         | (Some (CachedAnswer s), w1) \<Rightarrow>
             if s \<noteq> [] then (Inl (AttributeError ([CHR 0x27] @ ''str'' @ [CHR 0x27] @ '' object has no attribute ''
                                  @ [CHR 0x27] @ ''success'' @ [CHR 0x27])), w1)
             else on_cache_miss E file force_ocr ocr_language w1
         | (None, w1) \<Rightarrow> on_cache_miss E file force_ocr ocr_language w1)"

subsection \<open>process\_file\<close>

text \<open>The dictionary \<open>process_file\<close> returns for a successful enhanced result.\<close>

definition enhanced_response :: "processing_result \<Rightarrow> pyval" where
  "enhanced_response r =
     PDict [(''success'', PBool True),
            (''content'', content r),
            (''metadata'', metadata r),
            (''enhanced_processing'', PBool True)]"

text \<open>\<open>d[key] = v\<close> and \<open>d.get(key)\<close> on a dictionary.\<close>

fun dict_set :: "(string \<times> pyval) list \<Rightarrow> string \<Rightarrow> pyval \<Rightarrow> (string \<times> pyval) list" where
  "dict_set [] key v = [(key, v)]"
| "dict_set ((k, x) # d) key v = (if k = key then (k, v) # d else (k, x) # dict_set d key v)"

definition item_set :: "pyval \<Rightarrow> string \<Rightarrow> pyval \<Rightarrow> pyval" where
  "item_set d key v = (case d of PDict kvs \<Rightarrow> PDict (dict_set kvs key v) | _ \<Rightarrow> d)"

text \<open>\<open>fallback_result.get('content', {}).get('text_content', '')\<close>.\<close>

definition fallback_text_of :: "pyval \<Rightarrow> string" where
  "fallback_text_of fallback_result =
     (case fallback_result of
        PDict kvs \<Rightarrow>
          (case map_of kvs ''content'' of
             Some (PDict c) \<Rightarrow>
               (case map_of c ''text_content'' of Some (PStr t) \<Rightarrow> t | _ \<Rightarrow> [])
           | _ \<Rightarrow> [])
      | _ \<Rightarrow> [])"

text \<open>
  The first attempt and its retry: \<open>process_file_enhanced\<close> with the caller's options
  and, when that result is not a success, once more with \<open>force_ocr=True\<close> and
  \<open>ocr_language or ['en']\<close>.
\<close>

definition enhanced_attempts ::
  "env \<Rightarrow> upload_file \<Rightarrow> bool \<Rightarrow> string list option \<Rightarrow> world \<Rightarrow> (exn + processing_result) \<times> world" where
  "enhanced_attempts E file force_ocr ocr_language w =
     (case process_file_enhanced E file force_ocr ocr_language w of
        (Inl e, w1) \<Rightarrow> (Inl e, w1)
      | (Inr enhanced_result, w1) \<Rightarrow>
          if \<not> success enhanced_result
          then process_file_enhanced E file True (Some (lang_or ocr_language [''en''])) w1
          else (Inr enhanced_result, w1))"

text \<open>
  The \<open>try\<close> block for a PDF whose enhanced attempts failed: the PyPDF2 fallback and,
  when its text starts with the scanned-PDF marker, one more call of
  \<open>process_file_enhanced\<close> with \<open>force_ocr=True\<close> and \<open>['eng']\<close>. \<open>Some\<close> is what the
  block returns; \<open>None\<close> is an exception inside the block, which is logged and dropped.
\<close>

definition pdf_fallback :: "env \<Rightarrow> upload_file \<Rightarrow> bytes \<Rightarrow> world \<Rightarrow> pyval option \<times> world" where
  "pdf_fallback E file content' w =
     (case fallback_pdf_processing E file content' of
        Inl fallback_error \<Rightarrow> (None, w)
      | Inr fallback_result \<Rightarrow>
          if prefix ''This appears to be a scanned PDF'' (strip (fallback_text_of fallback_result))
             \<and> enhanced_processing_enabled E
          then (case process_file_enhanced E file True (Some [''eng'']) w of
                  (Inl fallback_error, w1) \<Rightarrow> (None, w1)
                | (Inr enhanced_result2, w1) \<Rightarrow>
                    if success enhanced_result2
                    then (Some (enhanced_response enhanced_result2), w1)
                    else (Some (item_set fallback_result ''docling_error''
                                  (opt_str (error_message enhanced_result2))), w1))
          else (Some fallback_result, w))"

text \<open>The tabular result of the csv and excel branches.\<close>

definition table_response :: "upload_file \<Rightarrow> bytes \<Rightarrow> string \<Rightarrow> string list \<times> pyval list \<Rightarrow> pyval" where
  "table_response file content' fmt_name df =
     PDict [(''success'', PBool True),
            (''content'', PList (snd df)),
            (''metadata'', PDict
               [(''file_name'', opt_str (filename file)),
                (''file_size'', PInt (int (length content'))),
                (''format'', PStr fmt_name),
                (''processing_method'', PStr ''basic''),
                (''rows'', PInt (int (length (snd df)))),
                (''columns'', PList (map PStr (fst df)))]),
            (''enhanced_processing'', PBool False)]"

definition image_response :: "env \<Rightarrow> upload_file \<Rightarrow> bytes \<Rightarrow> string \<Rightarrow> pyval" where
  "image_response E file content' ext =
     PDict [(''success'', PBool True),
            (''content'', PDict
               [(''image_data'', PStr (b64encode E content')),
                (''image_type'', PStr ext),
                (''file_size'', PInt (int (length content'))),
                (''note'', PStr ''Image file uploaded. OCR processing unavailable or failed.'')]),
            (''metadata'', PDict
               [(''file_name'', opt_str (filename file)),
                (''file_size'', PInt (int (length content'))),
                (''format'', PStr ''image''),
                (''image_type'', PStr ext),
                (''processing_method'', PStr ''basic''),
                (''ocr_available'', PBool False)]),
            (''enhanced_processing'', PBool False)]"

definition text_response :: "upload_file \<Rightarrow> bytes \<Rightarrow> string \<Rightarrow> string \<Rightarrow> pyval" where
  "text_response file content' ext text_content =
     PDict [(''success'', PBool True),
            (''content'', PDict
               [(''text_content'', PStr text_content),
                (''file_type'', PStr ext),
                (''file_size'', PInt (int (length content'))),
                (''character_count'', PInt (int (length text_content))),
                (''line_count'', PInt (int (line_count text_content)))]),
            (''metadata'', PDict
               [(''file_name'', opt_str (filename file)),
                (''file_size'', PInt (int (length content'))),
                (''format'', PStr ''text''),
                (''processing_method'', PStr ''basic''),
                (''character_count'', PInt (int (length text_content))),
                (''line_count'', PInt (int (line_count text_content)))]),
            (''enhanced_processing'', PBool False)]"

definition document_response :: "env \<Rightarrow> upload_file \<Rightarrow> bytes \<Rightarrow> string \<Rightarrow> pyval" where
  "document_response E file content' ext =
     PDict [(''success'', PBool True),
            (''content'', PDict
               [(''document_data'', PStr (b64encode E content')),
                (''document_type'', PStr ext),
                (''file_size'', PInt (int (length content'))),
                (''note'', PStr (upper ext @ '' document uploaded. Enhanced processing (Docling) is recommended for better text extraction.''))]),
            (''metadata'', PDict
               [(''file_name'', opt_str (filename file)),
                (''file_size'', PInt (int (length content'))),
                (''format'', PStr ''document''),
                (''document_type'', PStr ext),
                (''processing_method'', PStr ''basic''),
                (''enhanced_processing_recommended'', PBool True)]),
            (''enhanced_processing'', PBool False)]"

text \<open>
  The basic path ("original logic"): the chain of tests on the extension, in the order of
  the source. The image branch calls \<open>process_file_enhanced\<close> once when Docling is
  available, before its base64 fallback.
\<close>

definition basic_processing ::
  "env \<Rightarrow> upload_file \<Rightarrow> bytes \<Rightarrow> string \<Rightarrow> world \<Rightarrow> (exn + pyval) \<times> world" where
  "basic_processing E file content' ext w =
     (if ext = ''json'' then
        (case json_loads E content' of
           Returned v \<Rightarrow>
             (Inr (PDict [(''success'', PBool True),
                          (''content'', v),
                          (''metadata'', PDict
                             [(''file_name'', opt_str (filename file)),
                              (''file_size'', PInt (int (length content'))),
                              (''format'', PStr ''json''),
                              (''processing_method'', PStr ''basic'')]),
                          (''enhanced_processing'', PBool False)]), w)
         | Raised (JSONDecodeError m) \<Rightarrow> (Inl (ValueError ''Invalid JSON file''), w)
         | Raised e \<Rightarrow> (Inl e, w))
      else if ext = ''csv'' then
        (case read_csv E content' of
           Returned df \<Rightarrow> (Inr (table_response file content' ''csv'' df), w)
         | Raised e \<Rightarrow> (Inl (ValueError ''Invalid CSV file''), w))
      else if ext \<in> set [''jpg'', ''jpeg'', ''png'', ''gif'', ''bmp'', ''tiff'', ''webp''] then
        (if enhanced_processing_enabled E then
           (case process_file_enhanced E file True None w of
              (Inl e, w1) \<Rightarrow> (Inl (ValueError (''Invalid image file: '' @ exn_str e)), w1)
            | (Inr enhanced_result, w1) \<Rightarrow>
                if success enhanced_result
                then (Inr (enhanced_response enhanced_result), w1)
                else (Inr (image_response E file content' ext), w1))
         else (Inr (image_response E file content' ext), w))
      else if ext \<in> set [''xlsx'', ''xls''] then
        (case read_excel E content' of
           Returned df \<Rightarrow> (Inr (table_response file content' ''excel'' df), w)
         | Raised e \<Rightarrow> (Inl (ValueError ''Invalid Excel file''), w))
      else if ext \<in> set [''txt'', ''md'', ''rtf'', ''html'', ''xml'', ''yaml'', ''yml''] then
        (case decode_utf8 E content' of
           Returned text_content \<Rightarrow> (Inr (text_response file content' ext text_content), w)
         | Raised e \<Rightarrow> (Inl (ValueError (''Invalid text file: '' @ exn_str e)), w))
      else if ext \<in> set [''pdf'', ''docx'', ''doc'', ''odt''] then
        (Inr (document_response E file content' ext), w)
      else (Inl (ValueError (''Unsupported file type: '' @ ext)), w))"

text \<open>
  \<open>process_file\<close>: the bytes are read once, a PDF sets \<open>force_ocr\<close>, and the enhanced
  path is taken when \<open>_should_use_enhanced_processing\<close> says so. \<open>Inl\<close> is the exception
  the call raises, \<open>Inr\<close> the dictionary it returns.
\<close>

definition effective_force_ocr :: "upload_file \<Rightarrow> bool \<Rightarrow> bool" where
  "effective_force_ocr file force_ocr = (if file_ext file = ''pdf'' then True else force_ocr)"

text \<open>What \<open>process_file\<close> does once the enhanced attempts have failed.\<close>

definition basic_fallback ::
  "env \<Rightarrow> upload_file \<Rightarrow> bytes \<Rightarrow> string \<Rightarrow> world \<Rightarrow> (exn + pyval) \<times> world" where
  "basic_fallback E file content' ext w =
     (if ext = ''pdf'' then
        (case pdf_fallback E file content' w of
           (Some response, w1) \<Rightarrow> (Inr response, w1)
         | (None, w1) \<Rightarrow> basic_processing E file content' ext w1)
      else basic_processing E file content' ext w)"

definition process_file ::
  "env \<Rightarrow> upload_file \<Rightarrow> bool \<Rightarrow> string list option \<Rightarrow> world \<Rightarrow> (exn + pyval) \<times> world" where
  "process_file E file force_ocr0 ocr_language w =
     (let content' = data file;
          ext = file_ext file;
          force_ocr = effective_force_ocr file force_ocr0
      in if should_use_enhanced_processing E file force_ocr then
           (case enhanced_attempts E file force_ocr ocr_language w of
              (Inl e, w1) \<Rightarrow> (Inl e, w1)
            | (Inr enhanced_result, w1) \<Rightarrow>
                if success enhanced_result then (Inr (enhanced_response enhanced_result), w1)
                else basic_fallback E file content' ext w1)
         else basic_processing E file content' ext w)"

text \<open>Every extension some branch of \<open>process_file\<close> names.\<close>

definition supported_extensions :: "string list" where
  "supported_extensions =
     enhanced_formats @ [''json'', ''csv'']
       @ [''jpg'', ''jpeg'', ''png'', ''gif'', ''bmp'', ''tiff'', ''webp'']
       @ [''xlsx'', ''xls'']
       @ [''txt'', ''md'', ''rtf'', ''html'', ''xml'', ''yaml'', ''yml'']
       @ [''pdf'', ''docx'', ''doc'', ''odt'']"

text \<open>The Docling conversion raises on every call.\<close>

definition docling_always_fails :: "env \<Rightarrow> bool" where
  "docling_always_fails E = (\<forall>n name bs force_ocr lang. \<exists>e. docling E n name bs force_ocr lang = Raised e)"

text \<open>
  The shared cache holds extraction results only when they are successes, and answers
  only under keys that are not partial-result keys.
\<close>

definition cache_ok :: "cached in_memory_cache \<Rightarrow> bool" where
  "cache_ok c = (\<forall>k v t e. c k = Some (v, t, e) \<longrightarrow>
       (case v of CachedResult r \<Rightarrow> success r | CachedAnswer s \<Rightarrow> \<not> prefix ''partial:'' k))"

section \<open>openai\_service.py and the context builder of chats.py\<close>

text \<open>
  What \<open>client.chat.completions.create\<close> does on a list of messages: it raises (the
  string is \<open>str(e)\<close>), or it answers without a usable choice, or with a choice whose
  \<open>message.content\<close> is a string or \<open>None\<close>.
\<close>

datatype llm_reply = ApiError string | NoChoices | Content "string option"

text \<open>A message is its role and its content.\<close>

type_synonym message = "string \<times> string"

text \<open>
  The service: \<open>settings.OPENAI_MODEL\<close>, read outside the \<open>try\<close> of \<open>chat_completion\<close>
  (so an exception there escapes), and the client.
\<close>

record openai_service =
  openai_model :: "string outcome"
  create :: "message list \<Rightarrow> llm_reply"

text \<open>\<open>_generate_fallback_response\<close>: the canned answers when the quota is exceeded.\<close>

definition generate_fallback_response :: "message list \<Rightarrow> string" where
  "generate_fallback_response messages =
     (case find (\<lambda>msg. fst msg = ''user'') (rev messages) of
        None \<Rightarrow> ''I apologize, but I'm currently experiencing technical difficulties with my AI service. Please try again later.''
      | Some (role, user_message) \<Rightarrow>
          if user_message = [] then ''I apologize, but I'm currently experiencing technical difficulties with my AI service. Please try again later.''
          else if \<exists>keyword \<in> set [''author'', ''content'', ''document'', ''file'', ''article''].
                    contains keyword (lower user_message)
          then ''I can see that you've uploaded a document and are asking about its content. However, I'm currently experiencing technical difficulties with my AI analysis service. The file has been successfully uploaded and processed, but I cannot provide detailed analysis at the moment. Please try again later or contact support if this issue persists.''
          else ''I apologize, but I'm currently experiencing technical difficulties with my AI service. Your question has been received, but I cannot provide a detailed response at the moment. Please try again later.'')"

text \<open>
  \<open>chat_completion\<close>: every exception of the client is caught and answered with an
  apology text. \<open>Inl\<close> is an exception that escapes, \<open>Inr\<close> the returned value.
\<close>

definition chat_completion :: "openai_service \<Rightarrow> message list \<Rightarrow> exn + string option" where
  "chat_completion svc messages =
     (case openai_model svc of
        Raised e \<Rightarrow> Inl e
      | Returned model \<Rightarrow>
          (case create svc messages of
             Content c \<Rightarrow> Inr c
           | NoChoices \<Rightarrow>
               Inr (Some ''I apologize, but I'm having trouble generating a response right now.'')
           | ApiError e \<Rightarrow>
               if contains ''insufficient_quota'' e \<or> contains ''429'' e
               then Inr (Some (generate_fallback_response messages))
               else Inr (Some (''I apologize, but I'm experiencing technical difficulties: '' @ e))))"

text \<open>\<open>summarize_text\<close>: an exception out of \<open>chat_completion\<close> becomes the marked string.\<close>

definition summarize_text :: "openai_service \<Rightarrow> string \<Rightarrow> string option" where
  "summarize_text svc text =
     (let prompt = ''Summarize the following document content in a concise, factual way, preserving key details, data, and structure. Focus on the most important points, and keep the summary under 400 words.''
                   @ [CHR 0x0A, CHR 0x0A] @ ''CONTENT:'' @ [CHR 0x0A] @ text;
          messages = [(''system'', ''You are an expert document summarizer.''), (''user'', prompt)]
      in case chat_completion svc messages of
           Inr r \<Rightarrow> r
         | Inl e \<Rightarrow> Some (''[SUMMARY ERROR: '' @ exn_str e @ '']''))"

text \<open>
  The context built in \<open>send_message\<close> from the name and the text of the latest file:
  a text of more than 2000 characters is replaced by the summary of its first 8000
  characters when that summary is truthy and does not start with \<open>[SUMMARY ERROR\<close>, and
  by its first 2000 characters otherwise.
\<close>

definition context_frame :: "string \<Rightarrow> string \<Rightarrow> string" where
  "context_frame name file_content_str =
     ''Use the content of the file '' @ [CHR 0x27] @ name @ [CHR 0x27]
       @ '' to answer the user's question.'' @ [CHR 0x0A]
       @ ''--- FILE CONTENT ---'' @ [CHR 0x0A] @ file_content_str @ [CHR 0x0A]
       @ ''--- END FILE CONTENT ---''"

definition build_context :: "openai_service \<Rightarrow> string \<Rightarrow> string \<Rightarrow> string" where
  "build_context svc name file_content_str =
     (let max_context_chars = 2000 in
      if length file_content_str > max_context_chars then
        (case summarize_text svc (take 8000 file_content_str) of
           None \<Rightarrow>
             context_frame name (take max_context_chars file_content_str)
               @ [CHR 0x0A] @ ''[NOTE: File content truncated for token limit.]''
         | Some summary \<Rightarrow>
             if summary \<noteq> [] \<and> \<not> prefix ''[SUMMARY ERROR'' summary
             then context_frame name summary
                    @ [CHR 0x0A] @ ''[NOTE: File content summarized for token limit.]''
             else context_frame name (take max_context_chars file_content_str)
                    @ [CHR 0x0A] @ ''[NOTE: File content truncated for token limit.]'')
      else context_frame name file_content_str)"

text \<open>A service whose client raises on every call.\<close>

definition unreachable_service :: openai_service where
  "unreachable_service =
     \<lparr>openai_model = Returned ''gpt'', create = (\<lambda>messages. ApiError ''Connection error.'')\<rparr>"

section \<open>The query fingerprint of chats.py\<close>

subsection \<open>hashlib.sha256\<close>

text \<open>
  SHA-256 as \<open>hashlib\<close> computes it (FIPS 180-4): the padding, the message schedule,
  the 64 rounds of the compression function and the hexadecimal digest. A byte is a
  \<open>char\<close>; a 32-bit word is a natural number below \<open>2 ^ 32\<close>, with the wrap-around of
  every addition written out.
\<close>

text \<open>
  The round constants (the first 32 bits of the fractional parts of the cube roots of the
  first 64 primes) and the initial hash value (of the square roots of the first 8
  primes), in decimal as every word of this section.
\<close>

definition sha256_k :: "nat list" where
  "sha256_k =
     [
      1116352408, 1899447441, 3049323471, 3921009573,
      961987163, 1508970993, 2453635748, 2870763221,
      3624381080, 310598401, 607225278, 1426881987,
      1925078388, 2162078206, 2614888103, 3248222580,
      3835390401, 4022224774, 264347078, 604807628,
      770255983, 1249150122, 1555081692, 1996064986,
      2554220882, 2821834349, 2952996808, 3210313671,
      3336571891, 3584528711, 113926993, 338241895,
      666307205, 773529912, 1294757372, 1396182291,
      1695183700, 1986661051, 2177026350, 2456956037,
      2730485921, 2820302411, 3259730800, 3345764771,
      3516065817, 3600352804, 4094571909, 275423344,
      430227734, 506948616, 659060556, 883997877,
      958139571, 1322822218, 1537002063, 1747873779,
      1955562222, 2024104815, 2227730452, 2361852424,
      2428436474, 2756734187, 3204031479, 3329325298]"

definition sha256_h0 :: "nat list" where
  "sha256_h0 =
     [
      1779033703, 3144134277, 1013904242, 2773480762,
      1359893119, 2600822924, 528734635, 1541459225]"

definition add32 :: "nat \<Rightarrow> nat \<Rightarrow> nat" where
  "add32 x y = (x + y) mod 4294967296"

definition not32 :: "nat \<Rightarrow> nat" where
  "not32 x = 4294967295 - x mod 4294967296"

definition shr :: "nat \<Rightarrow> nat \<Rightarrow> nat" where
  "shr n x = x div 2 ^ n"

definition rotr :: "nat \<Rightarrow> nat \<Rightarrow> nat" where
  "rotr n x = x div 2 ^ n + (x mod 2 ^ n) * 2 ^ (32 - n)"

definition ch :: "nat \<Rightarrow> nat \<Rightarrow> nat \<Rightarrow> nat" where
  "ch x y z = (x AND y) XOR (not32 x AND z)"

definition maj :: "nat \<Rightarrow> nat \<Rightarrow> nat \<Rightarrow> nat" where
  "maj x y z = (x AND y) XOR (x AND z) XOR (y AND z)"

definition bsig0 :: "nat \<Rightarrow> nat" where
  "bsig0 x = rotr 2 x XOR rotr 13 x XOR rotr 22 x"

definition bsig1 :: "nat \<Rightarrow> nat" where
  "bsig1 x = rotr 6 x XOR rotr 11 x XOR rotr 25 x"

definition ssig0 :: "nat \<Rightarrow> nat" where
  "ssig0 x = rotr 7 x XOR rotr 18 x XOR shr 3 x"

definition ssig1 :: "nat \<Rightarrow> nat" where
  "ssig1 x = rotr 17 x XOR rotr 19 x XOR shr 10 x"

text \<open>The message, a 1 bit, zero bytes up to 56 modulo 64, the bit length in 8 bytes.\<close>

definition sha256_pad :: "bytes \<Rightarrow> nat list" where
  "sha256_pad m =
     map of_char m @ [128]
       @ replicate ((119 - length m mod 64) mod 64) 0
       @ map (\<lambda>i. (8 * length m) div 256 ^ i mod 256) [7, 6, 5, 4, 3, 2, 1, 0]"

text \<open>Big-endian words of the padded bytes, and the blocks of sixteen words.\<close>

fun be_words :: "nat list \<Rightarrow> nat list" where
  "be_words (a # b # c # d # rest) = (((a * 256 + b) * 256 + c) * 256 + d) # be_words rest"
| "be_words rest = []"

fun blocks :: "nat list \<Rightarrow> nat list list" where
  "blocks [] = []"
| "blocks (w # ws) = take 16 (w # ws) # blocks (drop 16 (w # ws))"

text \<open>
  One round on the working variables \<open>a\<close> to \<open>h\<close>, with the round constant and the
  schedule word of the round: the two temporaries, then the shift of the variables.
\<close>

definition temp1 :: "nat \<Rightarrow> nat \<Rightarrow> nat \<Rightarrow> nat \<Rightarrow> nat \<Rightarrow> nat \<Rightarrow> nat" where
  "temp1 e f g h k w = add32 (add32 (add32 (add32 h (bsig1 e)) (ch e f g)) k) w"

definition temp2 :: "nat \<Rightarrow> nat \<Rightarrow> nat \<Rightarrow> nat" where
  "temp2 a b c = add32 (bsig0 a) (maj a b c)"

fun shift_vars :: "nat list \<Rightarrow> nat \<Rightarrow> nat \<Rightarrow> nat list" where
  "shift_vars [a, b, c, d, e, f, g, h] t1 t2 = [add32 t1 t2, a, b, c, add32 d t1, e, f, g]"
| "shift_vars v t1 t2 = v"

fun round32 :: "nat list \<Rightarrow> nat \<Rightarrow> nat \<Rightarrow> nat list" where
  "round32 [a, b, c, d, e, f, g, h] k w =
     shift_vars [a, b, c, d, e, f, g, h] (temp1 e f g h k w) (temp2 a b c)"
| "round32 v k w = v"

text \<open>
  The message schedule is kept as a window of sixteen words, \<open>W t\<close> to \<open>W (t + 15)\<close>:
  round \<open>t\<close> uses the first and appends
  \<open>W (t + 16) = ssig1 (W (t + 14)) + W (t + 9) + ssig0 (W (t + 1)) + W t\<close>.
\<close>

definition next_word :: "nat list \<Rightarrow> nat" where
  "next_word w = add32 (add32 (add32 (ssig1 (w ! 14)) (w ! 9)) (ssig0 (w ! 1))) (w ! 0)"

definition step :: "nat list \<times> nat list \<Rightarrow> nat \<Rightarrow> nat list \<times> nat list" where
  "step s k = (round32 (fst s) k (snd s ! 0), tl (snd s) @ [next_word (snd s)])"

definition compress :: "nat list \<Rightarrow> nat list \<Rightarrow> nat list" where
  "compress hs block = map2 add32 hs (fst (foldl step (hs, block) sha256_k))"

definition sha256 :: "bytes \<Rightarrow> nat list" where
  "sha256 m = foldl compress sha256_h0 (blocks (be_words (sha256_pad m)))"

definition hex_digit :: "nat \<Rightarrow> char" where
  "hex_digit n = ''0123456789abcdef'' ! (n mod 16)"

definition hex_word :: "nat \<Rightarrow> string" where
  "hex_word w = map (\<lambda>i. hex_digit (w div 16 ^ i)) [7, 6, 5, 4, 3, 2, 1, 0]"

definition hexdigest :: "nat list \<Rightarrow> string" where
  "hexdigest hs = concat (map hex_word hs)"

subsection \<open>The answer cache in send\_message\<close>

text \<open>\<open>s.encode("utf-8")\<close> on code points below 256.\<close>

definition utf8_encode :: "string \<Rightarrow> bytes" where
  "utf8_encode s =
     concat (map (\<lambda>c. let n = of_char c :: nat in
                        if n < 128 then [c]
                        else [char_of (192 + n div 64), char_of (128 + n mod 64)]) s)"

text \<open>
  \<open>query_str = chat_input.message.strip().lower()\<close> and
  \<open>query_hash = hashlib.sha256(query_str.encode("utf-8")).hexdigest()\<close>.
\<close>

definition query_str :: "string \<Rightarrow> string" where
  "query_str message = lower (strip message)"

definition query_hash :: "string \<Rightarrow> string" where
  "query_hash message = hexdigest (sha256 (utf8_encode (query_str message)))"

text \<open>
  The cache check at the start of \<open>send_message\<close>: a truthy cached value is the answer
  returned (\<open>Some\<close>); a miss, or a falsy value such as the empty string, goes on to the
  reasoning layer (\<open>None\<close>). The store at its end keeps the answer for 600 seconds.
\<close>

definition cached_response ::
  "cached in_memory_cache \<Rightarrow> string \<Rightarrow> string \<Rightarrow> real \<Rightarrow> cached option \<times> cached in_memory_cache" where
  "cached_response c chat_id message now =
     (case query_cache_get c chat_id (query_hash message) now of
        (Some (CachedAnswer a), c') \<Rightarrow> if a \<noteq> [] then (Some (CachedAnswer a), c') else (None, c')
      | (Some (CachedResult r), c') \<Rightarrow> (Some (CachedResult r), c')
      | (None, c') \<Rightarrow> (None, c'))"

definition store_response ::
  "cached in_memory_cache \<Rightarrow> string \<Rightarrow> string \<Rightarrow> string \<Rightarrow> real \<Rightarrow> real \<Rightarrow> cached in_memory_cache" where
  "store_response c chat_id message response_message t_exp t_created =
     query_cache_set c chat_id (query_hash message) (CachedAnswer response_message) (Some 600)
       t_exp t_created"

text \<open>The same store with the expiry as the float addition gives it.\<close>

definition store_response_double ::
  "cached in_memory_cache \<Rightarrow> string \<Rightarrow> string \<Rightarrow> string \<Rightarrow> real \<Rightarrow> real \<Rightarrow> cached in_memory_cache" where
  "store_response_double c chat_id message response_message t_exp t_created =
     cache_set_double c (query_make_key chat_id (query_hash message))
       (CachedAnswer response_message) (Some 600) t_exp t_created"

text \<open>
  Two texts that are the same up to the case of their letters and up to white space
  around them: each is a core between two runs of white space, and the cores have the same
  lower-case form.
\<close>

definition same_up_to_case_and_padding :: "string \<Rightarrow> string \<Rightarrow> bool" where
  "same_up_to_case_and_padding a b =
     (\<exists>l1 r1 l2 r2 core1 core2.
        a = l1 @ core1 @ r1 \<and> b = l2 @ core2 @ r2
      \<and> list_all is_space (l1 @ r1 @ l2 @ r2)
      \<and> lower core1 = lower core2)"

text \<open>
  \<open>s.split()\<close>: the words of a text, separated by runs of white space. Two texts with
  the same lower-case words are the same up to the case of their letters and up to white
  space anywhere.
\<close>

fun split_words :: "string \<Rightarrow> string \<Rightarrow> string list" where
  "split_words word [] = (if word = [] then [] else [word])"
| "split_words word (c # s) =
     (if is_space c then (if word = [] then split_words [] s else word # split_words [] s)
      else split_words (word @ [c]) s)"

definition same_up_to_case_and_whitespace :: "string \<Rightarrow> string \<Rightarrow> bool" where
  "same_up_to_case_and_whitespace a b =
     (map lower (split_words [] a) = map lower (split_words [] b))"

section \<open>Concrete collaborators for the worked inputs\<close>

text \<open>
  An environment whose resource probe, Docling conversion and PyPDF2 reader give the same
  answer on every call, a world with an empty cache, and an upload of a given name.
\<close>

definition constant_env :: "bool \<Rightarrow> probe \<Rightarrow> (string \<times> string) outcome \<Rightarrow> string list outcome \<Rightarrow> env" where
  "constant_env enabled p d pdf =
     \<lparr>enhanced_processing_enabled = enabled,
      max_memory_mb = 512,
      clock = (\<lambda>n. real n),
      psutil = (\<lambda>n. p),
      docling = (\<lambda>n name bs force_ocr lang. d),
      pypdf2 = (\<lambda>bs. pdf),
      json_loads = (\<lambda>bs. Raised (JSONDecodeError ''Expecting value'')),
      read_csv = (\<lambda>bs. Raised (OtherError ''no table'')),
      read_excel = (\<lambda>bs. Raised (OtherError ''no table'')),
      decode_utf8 = (\<lambda>bs. Returned bs),
      b64encode = (\<lambda>bs. bs)\<rparr>"

definition fresh_world :: world where
  "fresh_world = \<lparr>cache = Map.empty, ticks = 0, checks = 0, conversions = 0, enhanced_calls = []\<rparr>"

definition named_file :: "string \<Rightarrow> upload_file" where
  "named_file name = \<lparr>filename = Some name, data = ''bytes''\<rparr>"

text \<open>
  Three such environments: no free memory at all; resources fine but a conversion that
  always raises and a PDF without extractable text; resources fine and a conversion that
  works.
\<close>

definition starved_env :: env where
  "starved_env =
     constant_env True (Reading 0 None) (Raised (OtherError ''not reached'')) (Returned [''hello''])"

definition failing_env :: env where
  "failing_env =
     constant_env True (Reading 4294967296 (Some 10)) (Raised (OtherError ''boom'')) (Returned [])"

definition working_env :: env where
  "working_env =
     constant_env True (Reading 4294967296 (Some 10)) (Returned (''text'', ''pdf'')) (Returned [])"

section \<open>Cache keys and expiry\<close>

lemma colon_split_left:
  assumes "CHR '':'' \<notin> set a" and "CHR '':'' \<notin> set a'"
    and "a @ CHR '':'' # b = a' @ CHR '':'' # b'"
  shows "a = a' \<and> b = b'"
  using assms
proof (induction a arbitrary: a')
  case Nil
  then show ?case by (cases a') auto
next
  case (Cons x xs)
  then show ?case by (cases a') auto
qed

lemma colon_split_right:
  assumes "CHR '':'' \<notin> set b" and "CHR '':'' \<notin> set b'"
    and "a @ CHR '':'' # b = a' @ CHR '':'' # b'"
  shows "a = a' \<and> b = b'"
proof -
  have "rev b @ CHR '':'' # rev a = rev b' @ CHR '':'' # rev a'"
    using arg_cong [OF assms(3), of rev] by simp
  moreover have "CHR '':'' \<notin> set (rev b)" "CHR '':'' \<notin> set (rev b')"
    using assms(1,2) by simp_all
  ultimately have "rev b = rev b' \<and> rev a = rev a'"
    by (rule colon_split_left [rotated 2])
  then show ?thesis by simp
qed

lemma make_keys_differ: "query_make_key a b \<noteq> partial_make_key a' b'"
  by (simp add: query_make_key_def partial_make_key_def)

lemma cache_get_set_other:
  "k \<noteq> k' \<Longrightarrow> fst (cache_get (cache_set c k' v ttl t1 t2) k now) = fst (cache_get c k now)"
  by (simp add: cache_get_def cache_set_def Let_def split: option.splits)

lemma key_body_inj:
  assumes "(CHR '':'' \<notin> set a \<and> CHR '':'' \<notin> set a') \<or> (CHR '':'' \<notin> set b \<and> CHR '':'' \<notin> set b')"
    and "a @ CHR '':'' # b = a' @ CHR '':'' # b'"
  shows "a = a' \<and> b = b'"
  using assms(1)
proof
  assume "CHR '':'' \<notin> set a \<and> CHR '':'' \<notin> set a'"
  then show ?thesis using colon_split_left [of a a' b b'] assms(2) by simp
next
  assume "CHR '':'' \<notin> set b \<and> CHR '':'' \<notin> set b'"
  then show ?thesis using colon_split_right [of b b' a a'] assms(2) by simp
qed

text \<open>
  C6, as stated, fails at a concrete input: two different id pairs get the same
  answer-cache key, because an id may itself contain the separator.
\<close>

theorem C6_make_key_collision:
  "query_make_key ''a:b'' ''c'' = query_make_key ''a'' ''b:c''
     \<and> (''a:b'', ''c'') \<noteq> (''a'', ''b:c'')"
  by (simp add: query_make_key_def)

text \<open>
  C6, amended: on id pairs whose first components contain no colon, or whose second
  components contain no colon, each of the two key constructions gives equal keys only for
  equal pairs; for all ids whatsoever a key of the answer cache never equals a key of the
  partial-result cache, and a \<open>set\<close> through the partial-result cache leaves the result of
  every \<open>get\<close> through the answer cache as it was.
\<close>

theorem C6_make_key_injective_without_colon:
  fixes c :: "'v in_memory_cache"
  assumes "(CHR '':'' \<notin> set a \<and> CHR '':'' \<notin> set a') \<or> (CHR '':'' \<notin> set b \<and> CHR '':'' \<notin> set b')"
  shows "(query_make_key a b = query_make_key a' b' \<longleftrightarrow> a = a' \<and> b = b')
       \<and> (partial_make_key a b = partial_make_key a' b' \<longleftrightarrow> a = a' \<and> b = b')
       \<and> query_make_key x y \<noteq> partial_make_key x' y'
       \<and> fst (query_cache_get (partial_cache_set c x y v ttl t1 t2) x y now)
           = fst (query_cache_get c x y now)"
proof -
  have inj: "a @ CHR '':'' # b = a' @ CHR '':'' # b' \<Longrightarrow> a = a' \<and> b = b'"
    by (rule key_body_inj [OF assms])
  have q: "query_make_key a b = query_make_key a' b' \<longleftrightarrow> a = a' \<and> b = b'"
  proof
    assume "query_make_key a b = query_make_key a' b'"
    then have "a @ CHR '':'' # b = a' @ CHR '':'' # b'" by (simp add: query_make_key_def)
    then show "a = a' \<and> b = b'" by (rule inj)
  next
    assume "a = a' \<and> b = b'" then show "query_make_key a b = query_make_key a' b'" by simp
  qed
  have p: "partial_make_key a b = partial_make_key a' b' \<longleftrightarrow> a = a' \<and> b = b'"
  proof
    assume "partial_make_key a b = partial_make_key a' b'"
    then have "a @ CHR '':'' # b = a' @ CHR '':'' # b'" by (simp add: partial_make_key_def)
    then show "a = a' \<and> b = b'" by (rule inj)
  next
    assume "a = a' \<and> b = b'" then show "partial_make_key a b = partial_make_key a' b'" by simp
  qed
  have d: "query_make_key x y \<noteq> partial_make_key x' y'"
    by (rule make_keys_differ)
  have g: "fst (query_cache_get (partial_cache_set c x y v ttl t1 t2) x y now)
                   = fst (query_cache_get c x y now)"
    unfolding query_cache_get_def partial_cache_set_def
    by (rule cache_get_set_other) (rule make_keys_differ)
  from q p d g show ?thesis by (intro conjI)
qed

theorem C6_make_key_injective_witness:
  "(query_make_key ''X'' ''Y'' = query_make_key ''X'' ''Y'' \<longleftrightarrow> ''X'' = ''X'' \<and> ''Y'' = ''Y'')
     \<and> query_make_key ''X'' ''Y'' \<noteq> partial_make_key ''X'' ''Y''
     \<and> fst (query_cache_get (partial_cache_set (Map.empty :: nat in_memory_cache) ''X'' ''Y'' 1 (Some 5) 0 0) ''X'' ''Y'' 1)
         = fst (query_cache_get (Map.empty :: nat in_memory_cache) ''X'' ''Y'' 1)"
proof -
  have h: "(CHR '':'' \<notin> set ''X'' \<and> CHR '':'' \<notin> set ''X'') \<or> (CHR '':'' \<notin> set ''Y'' \<and> CHR '':'' \<notin> set ''Y'')"
    by simp
  from C6_make_key_injective_without_colon [OF h, of "''X''" "''Y''" "''X''" "''Y''"
        "Map.empty :: nat in_memory_cache" 1 "Some 5" 0 0 1]
  show ?thesis by blast
qed

subsection \<open>Rounding to a double\<close>

lemma round_half_even_ge_floor: "\<lfloor>x\<rfloor> \<le> round_half_even x"
  by (simp add: round_half_even_def Let_def)

lemma binade:
  assumes "0 < x"
  shows "2 powr of_int \<lfloor>log 2 x\<rfloor> \<le> x" and "x < 2 powr of_int (\<lfloor>log 2 x\<rfloor> + 1)"
proof -
  have x: "2 powr log 2 x = x" using assms by simp
  have "2 powr of_int \<lfloor>log 2 x\<rfloor> \<le> 2 powr log 2 x"
    by (rule powr_mono) simp_all
  then show "2 powr of_int \<lfloor>log 2 x\<rfloor> \<le> x" using x by simp
  have "log 2 x < of_int (\<lfloor>log 2 x\<rfloor> + 1)" by linarith
  then have "2 powr log 2 x < 2 powr of_int (\<lfloor>log 2 x\<rfloor> + 1)"
    by (rule powr_less_mono) simp
  then show "x < 2 powr of_int (\<lfloor>log 2 x\<rfloor> + 1)" using x by simp
qed

lemma floor_log2_eq:
  assumes "0 < x" and "2 powr of_int e \<le> x" and "x < 2 powr of_int (e + 1)"
  shows "\<lfloor>log 2 x\<rfloor> = e"
proof -
  have "of_int e \<le> log 2 x" using assms(1,2) by (simp add: le_log_iff)
  moreover have "log 2 x < of_int (e + 1)" using assms(1,3) by (simp add: log_less_iff)
  ultimately show ?thesis by linarith
qed


lemma powr_int_add: "(2::real) powr of_int (a + b) = 2 powr of_int a * 2 powr of_int b"
  by (simp add: powr_add)

lemma powr_int_nonneg: "0 \<le> j \<Longrightarrow> (2::real) powr of_int j = of_int (2 ^ nat j)"
  by (simp add: powr_realpow [symmetric])

lemma round_double_pos_eq:
  assumes "0 < x"
  shows "round_double x = 2 powr of_int (\<lfloor>log 2 x\<rfloor> - 52)
           * of_int (round_half_even (x / 2 powr of_int (\<lfloor>log 2 x\<rfloor> - 52)))"
  using assms by (simp add: round_double_def Let_def)

lemma round_half_even_of_int: "round_half_even (of_int n) = n"
  by (simp add: round_half_even_def)

text \<open>A double in or above the binade of \<open>2 ^ e\<close> is a multiple of \<open>2 ^ (e - 52)\<close>.\<close>

lemma double_multiple:
  assumes "is_double d" and "2 powr of_int e \<le> d"
  shows "\<exists>n :: int. d / 2 powr of_int (e - 52) = of_int n"
proof -
  from assms(1) obtain m k :: int where m: "\<bar>m\<bar> < 2 ^ 53" and d: "d = of_int m * 2 powr of_int k"
    unfolding is_double_def by blast
  have "0 < d" using assms(2) by (rule less_le_trans [rotated]) simp
  then have m0: "0 < (of_int m :: real)" unfolding d by (simp add: zero_less_mult_iff)
  have m53: "of_int m < (2 ^ 53 :: real)"
  proof -
    have "m < 2 ^ 53" using m by simp
    then have "(of_int m :: real) < of_int (2 ^ 53)" by (simp only: of_int_less_iff)
    then show ?thesis by simp
  qed
  have k: "e - 52 \<le> k"
  proof (rule ccontr)
    assume "\<not> e - 52 \<le> k"
    then have "k \<le> e - 53" by simp
    then have le: "(2::real) powr of_int k \<le> 2 powr of_int (e - 53)"
      by (intro powr_mono) simp_all
    have "(of_int m :: real) * 2 powr of_int k < 2 ^ 53 * 2 powr of_int (e - 53)"
      by (rule mult_less_le_imp_less) (use m53 m0 le in simp_all)
    also have "\<dots> = 2 powr of_int e"
      using powr_int_add [of 53 "e - 53"] by (simp add: powr_int_nonneg)
    finally show False using assms(2) d by simp
  qed
  have "d / 2 powr of_int (e - 52) = of_int m * 2 powr of_int (k - (e - 52))"
    using powr_int_add [of "k - (e - 52)" "e - 52"] by (simp add: d)
  also have "\<dots> = of_int (m * 2 ^ nat (k - (e - 52)))"
  proof -
    have "(2::real) powr of_int (k - (e - 52)) = of_int (2 ^ nat (k - (e - 52)))"
      using k by (intro powr_int_nonneg) simp
    then show ?thesis by (simp only: of_int_mult)
  qed
  finally show ?thesis by blast
qed

text \<open>A double that is not above a positive real is not above its rounding.\<close>

lemma round_double_ge:
  assumes "0 < x" and "is_double d" and "d \<le> x"
  shows "d \<le> round_double x"
proof -
  define e where "e = \<lfloor>log 2 x\<rfloor>"
  define q :: real where "q = 2 powr of_int (e - 52)"
  have q: "0 < q" by (simp add: q_def)
  have lo: "2 powr of_int e \<le> x"
    using binade(1) [OF assms(1)] by (simp add: e_def)
  have e52: "2 powr of_int e = 2 ^ 52 * q"
    using powr_int_add [of 52 "e - 52"] by (simp add: q_def powr_int_nonneg)
  have r: "round_double x = q * of_int (round_half_even (x / q))"
    using round_double_pos_eq [OF assms(1)] by (simp add: e_def q_def)
  have fl: "of_int \<lfloor>x / q\<rfloor> * q \<le> round_double x"
    using round_half_even_ge_floor [of "x / q"] q by (simp add: r mult.commute)
  show ?thesis
  proof (cases "d < 2 powr of_int e")
    case True
    have "(2 ^ 52 :: real) \<le> x / q" using lo e52 q by (simp add: pos_le_divide_eq)
    then have "(2 ^ 52 :: int) \<le> \<lfloor>x / q\<rfloor>" by (simp add: le_floor_iff)
    then have "(of_int (2 ^ 52) :: real) \<le> of_int \<lfloor>x / q\<rfloor>" by (simp only: of_int_le_iff)
    then have "2 ^ 52 * q \<le> of_int \<lfloor>x / q\<rfloor> * q" using q by simp
    then show ?thesis using True e52 fl by simp
  next
    case False
    then have "2 powr of_int e \<le> d" by simp
    from double_multiple [OF assms(2) this] obtain n :: int where n: "d / q = of_int n"
      unfolding q_def by blast
    have "d / q \<le> x / q" using assms(3) q by (simp add: divide_right_mono)
    then have "n \<le> \<lfloor>x / q\<rfloor>" unfolding n by (simp add: le_floor_iff)
    then have "d / q \<le> of_int \<lfloor>x / q\<rfloor>" unfolding n by (simp only: of_int_le_iff)
    then have "d \<le> of_int \<lfloor>x / q\<rfloor> * q" using q by (simp add: pos_divide_le_eq)
    then show ?thesis using fl by simp
  qed
qed

lemma is_doubleI: "\<bar>m\<bar> < 2 ^ 53 \<Longrightarrow> x = of_int m * 2 powr of_int e \<Longrightarrow> is_double x"
  unfolding is_double_def by blast

lemma round_double_pos:
  assumes "0 < x"
  shows "0 < round_double x"
proof -
  define e where "e = \<lfloor>log 2 x\<rfloor>"
  have "is_double (2 powr of_int e)" by (rule is_doubleI [of 1 _ e]) simp_all
  moreover have "2 powr of_int e \<le> x" using binade(1) [OF assms] by (simp add: e_def)
  ultimately have "2 powr of_int e \<le> round_double x" by (rule round_double_ge [OF assms])
  moreover have "(0::real) < 2 powr of_int e" by simp
  ultimately show ?thesis by linarith
qed

text \<open>A positive double is rounded to itself.\<close>

lemma round_double_exact:
  assumes "0 < x" and "is_double x"
  shows "round_double x = x"
proof -
  define q :: real where "q = 2 powr of_int (\<lfloor>log 2 x\<rfloor> - 52)"
  have q: "0 < q" by (simp add: q_def)
  from double_multiple [OF assms(2) binade(1) [OF assms(1)]]
  obtain n :: int where n: "x / q = of_int n" unfolding q_def by blast
  have "round_double x = q * of_int (round_half_even (x / q))"
    using round_double_pos_eq [OF assms(1)] by (simp add: q_def)
  also have "\<dots> = q * (x / q)" by (simp only: n round_half_even_of_int)
  finally show ?thesis using q by simp
qed

lemma round_double_at:
  assumes "0 < x" and "2 powr of_int e \<le> x" and "x < 2 powr of_int (e + 1)"
  shows "round_double x = 2 powr of_int (e - 52) * of_int (round_half_even (x / 2 powr of_int (e - 52)))"
  using round_double_pos_eq [OF assms(1)] floor_log2_eq [OF assms] by simp

text \<open>\<open>0.1 + 0.2\<close> on floats is \<open>0.30000000000000004\<close>.\<close>

lemma point_three:
  "double_add (3602879701896397 / 36028797018963968) (3602879701896397 / 18014398509481984)
     = 1351079888211149 / 4503599627370496"
proof -
  have "round_double (10808639105689191 / 36028797018963968)
          = 2 powr of_int (-2 - 52)
              * of_int (round_half_even ((10808639105689191 / 36028797018963968) / 2 powr of_int (-2 - 52)))"
    by (rule round_double_at) (simp_all add: powr_minus_divide powr_realpow)
  also have "\<dots> = 1351079888211149 / 4503599627370496"
    by (simp add: powr_minus_divide powr_realpow round_half_even_def Let_def)
  finally show ?thesis by (simp add: double_add_def)
qed

subsection \<open>Expiry\<close>

lemma double_add_ge:
  assumes "0 < t + d" and "is_double now" and "now \<le> t + d"
  shows "now \<le> double_add t d"
  unfolding double_add_def by (rule round_double_ge [OF assms])

lemma double_add_pos: "0 < t + d \<Longrightarrow> 0 < double_add t d"
  unfolding double_add_def by (rule round_double_pos)

lemma cache_set_double_exact:
  assumes "0 < t + d" and "is_double (t + d)"
  shows "cache_set_double c k v (Some d) t t1 = cache_set c k v (Some d) t t1"
  using round_double_exact [OF assms] by (simp add: cache_set_double_def cache_set_def double_add_def)

lemma cache_hit_with_double_sum:
  assumes "0 \<le> t" and "0 \<le> d" and "is_double now"
    and "fst (cache_get (cache_set c k v (Some d) t t1) k now) = Some v"
  shows "cache_get (cache_set_double c k v (Some d) t t1) k now
           = (Some v, cache_set_double c k v (Some d) t t1)"
proof (cases "d = 0")
  case True
  then show ?thesis by (simp add: cache_get_def cache_set_double_def)
next
  case False
  then have p: "0 < t + d" using assms(1,2) by simp
  have "now \<le> t + d"
    using assms(4) False p by (simp add: cache_get_def cache_set_def split: if_splits)
  then have "now \<le> double_add t d" by (rule double_add_ge [OF p assms(3)])
  then show ?thesis using False by (simp add: cache_get_def cache_set_double_def)
qed

text \<open>
  C7, as stated, fails at a concrete input: a \<open>set\<close> at clock value 0.1 with ttl 0.2 (the
  doubles nearest to them) stores the expiry 0.30000000000000004, the exact sum rounded up.
  A \<open>get\<close> at that clock value comes after the ttl has elapsed and still returns the
  value.
\<close>

theorem C7_rounded_expiry_outlives_ttl:
  "is_double (3602879701896397 / 36028797018963968)
   \<and> is_double (3602879701896397 / 18014398509481984)
   \<and> is_double (1351079888211149 / 4503599627370496)
   \<and> (3602879701896397 / 36028797018963968 :: real) + 3602879701896397 / 18014398509481984
        < 1351079888211149 / 4503599627370496
   \<and> cache_get
        (cache_set_double Map.empty ''k'' ''v'' (Some (3602879701896397 / 18014398509481984))
           (3602879701896397 / 36028797018963968) (3602879701896397 / 36028797018963968))
        ''k'' (1351079888211149 / 4503599627370496)
      = (Some ''v'',
         cache_set_double Map.empty ''k'' ''v'' (Some (3602879701896397 / 18014398509481984))
           (3602879701896397 / 36028797018963968) (3602879701896397 / 36028797018963968))"
proof -
  have p: "(2::real) powr of_int (-55) = 1 / 36028797018963968"
    "(2::real) powr of_int (-54) = 1 / 18014398509481984"
    "(2::real) powr of_int (-52) = 1 / 4503599627370496"
    by (simp_all add: powr_minus_divide powr_realpow)
  have a: "is_double (3602879701896397 / 36028797018963968)"
  proof (rule is_doubleI)
    show "\<bar>3602879701896397 :: int\<bar> < 2 ^ 53" by simp
    show "(3602879701896397 / 36028797018963968 :: real)
            = of_int 3602879701896397 * 2 powr of_int (-55)"
      by (simp only: p)
  qed
  have b: "is_double (3602879701896397 / 18014398509481984)"
  proof (rule is_doubleI)
    show "\<bar>3602879701896397 :: int\<bar> < 2 ^ 53" by simp
    show "(3602879701896397 / 18014398509481984 :: real)
            = of_int 3602879701896397 * 2 powr of_int (-54)"
      by (simp only: p)
  qed
  have c: "is_double (1351079888211149 / 4503599627370496)"
  proof (rule is_doubleI)
    show "\<bar>1351079888211149 :: int\<bar> < 2 ^ 53" by simp
    show "(1351079888211149 / 4503599627370496 :: real)
            = of_int 1351079888211149 * 2 powr of_int (-52)"
      by (simp only: p)
  qed
  have d: "(3602879701896397 / 36028797018963968 :: real) + 3602879701896397 / 18014398509481984
        < 1351079888211149 / 4503599627370496" by simp
  have "cache_get
        (cache_set_double Map.empty ''k'' ''v'' (Some (3602879701896397 / 18014398509481984))
           (3602879701896397 / 36028797018963968) (3602879701896397 / 36028797018963968))
        ''k'' (1351079888211149 / 4503599627370496)
      = (Some ''v'',
         cache_set_double Map.empty ''k'' ''v'' (Some (3602879701896397 / 18014398509481984))
           (3602879701896397 / 36028797018963968) (3602879701896397 / 36028797018963968))"
    by (simp add: cache_get_def cache_set_double_def point_three)
  with a b c d show ?thesis by (intro conjI)
qed

text \<open>
  C7, amended: right after \<open>set(k, v, ttl)\<close> with a positive ttl, made at clock value
  \<open>t0\<close> (seconds since the epoch, so not negative), \<open>get(k)\<close> returns \<open>v\<close> at every clock
  value before the ttl has elapsed (a double not above \<open>t0 + ttl\<close>), and more generally at
  every clock value not above the stored expiry, the float sum of \<open>t0\<close> and \<open>ttl\<close>; it
  returns \<open>None\<close>, deleting the entry, at every clock value above the stored expiry.
\<close>

theorem C7_set_then_get_double:
  assumes "0 < ttl" and "0 \<le> t0"
  shows "(is_double now \<and> now \<le> t0 + ttl \<longrightarrow>
            cache_get (cache_set_double c k v (Some ttl) t0 t1) k now
              = (Some v, cache_set_double c k v (Some ttl) t0 t1))
       \<and> (now \<le> double_add t0 ttl \<longrightarrow>
            cache_get (cache_set_double c k v (Some ttl) t0 t1) k now
              = (Some v, cache_set_double c k v (Some ttl) t0 t1))
       \<and> (double_add t0 ttl < now \<longrightarrow>
            cache_get (cache_set_double c k v (Some ttl) t0 t1) k now = (None, c(k := None)))"
proof -
  have p: "0 < t0 + ttl" using assms by simp
  have e: "0 < double_add t0 ttl" by (rule double_add_pos [OF p])
  have hit: "cache_get (cache_set_double c k v (Some ttl) t0 t1) k now
              = (Some v, cache_set_double c k v (Some ttl) t0 t1)" if "now \<le> double_add t0 ttl"
    using that assms(1) by (simp add: cache_get_def cache_set_double_def)
  have miss: "cache_get (cache_set_double c k v (Some ttl) t0 t1) k now = (None, c(k := None))"
    if "double_add t0 ttl < now"
    using that assms(1) e by (simp add: cache_get_def cache_set_double_def)
  have early: "now \<le> double_add t0 ttl" if "is_double now \<and> now \<le> t0 + ttl"
    using that double_add_ge [OF p] by simp
  show ?thesis using hit miss early by blast
qed

theorem C7_set_then_get_double_witness:
  "(0::real) < 600 \<and> (0::real) \<le> 1000 \<and> is_double 1600 \<and> double_add 1000 600 = 1600
   \<and> cache_get (cache_set_double Map.empty ''k'' ''v'' (Some 600) 1000 1000) ''k'' 1600
     = (Some ''v'', cache_set_double Map.empty ''k'' ''v'' (Some 600) 1000 1000)
   \<and> cache_get (cache_set_double Map.empty ''k'' ''v'' (Some 600) 1000 1000) ''k'' 1601
     = (None, Map.empty(''k'' := None))"
proof -
  have a: "(0::real) < 600" and b: "(0::real) \<le> 1000" by simp_all
  have d: "is_double 1600"
    by (rule is_doubleI [of 1600 _ 0]) simp_all
  have s: "double_add 1000 600 = 1600"
    using round_double_exact [of 1600] d by (simp add: double_add_def)
  have h: "is_double 1600 \<and> (1600::real) \<le> 1000 + 600" using d by simp
  have m: "double_add 1000 600 < 1601" using s by simp
  from C7_set_then_get_double [OF a b, of 1600 "Map.empty :: string in_memory_cache" "''k''" "''v''" 1000]
    C7_set_then_get_double [OF a b, of 1601 "Map.empty :: string in_memory_cache" "''k''" "''v''" 1000]
    a b d s h m
  show ?thesis by blast
qed

section \<open>The enhanced path: call log, failure, fallback\<close>

lemma check_system_resources_world:
  "snd (check_system_resources E w) = w\<lparr>checks := Suc (checks w)\<rparr>"
  by (simp add: check_system_resources_def Let_def split: probe.splits option.splits)

lemma check_system_resources_cong:
  "checks w' = checks w \<Longrightarrow> fst (check_system_resources E w') = fst (check_system_resources E w)"
  by (simp add: check_system_resources_def Let_def split: probe.splits option.splits)

lemma partial_result_cache_get_fields:
  "partial_result_cache_get E fid rt w = (r, w') \<Longrightarrow>
     enhanced_calls w' = enhanced_calls w \<and> checks w' = checks w \<and> conversions w' = conversions w
       \<and> ticks w' = Suc (ticks w)"
  by (auto simp: partial_result_cache_get_def split: prod.splits)

lemma partial_result_cache_get_miss:
  "cache w (partial_make_key fid rt) = None \<Longrightarrow>
     partial_result_cache_get E fid rt w = (None, w\<lparr>ticks := Suc (ticks w)\<rparr>)"
  by (simp add: partial_result_cache_get_def partial_cache_get_def cache_get_def)

lemma extract_enhanced_calls:
  "enhanced_calls (snd (extract_enhanced E file fo l w)) = enhanced_calls w"
  by (auto simp: extract_enhanced_def check_system_resources_def Let_def partial_result_cache_set_def
      split: prod.splits bool.splits option.splits outcome.splits exn.splits probe.splits list.splits)

lemma on_cache_miss_calls:
  "enhanced_calls (snd (on_cache_miss E file fo l w)) = enhanced_calls w"
  by (simp add: on_cache_miss_def extract_enhanced_calls)

lemma process_file_enhanced_calls:
  "enhanced_calls (snd (process_file_enhanced E file fo l w)) = enhanced_calls w @ [(fo, l)]"
proof -
  obtain r w1 where g: "partial_result_cache_get E (fmt (filename file)) ''ocr''
      (w\<lparr>enhanced_calls := enhanced_calls w @ [(fo, l)]\<rparr>) = (r, w1)"
    by (cases "partial_result_cache_get E (fmt (filename file)) ''ocr''
      (w\<lparr>enhanced_calls := enhanced_calls w @ [(fo, l)]\<rparr>)")
  from partial_result_cache_get_fields [OF g]
  have c: "enhanced_calls w1 = enhanced_calls w @ [(fo, l)]" by simp
  show ?thesis
    using g c by (simp add: process_file_enhanced_def Let_def on_cache_miss_calls
        split: option.splits cached.splits)
qed

lemma failure_not_success: "\<not> success (failure m b)"
  by (simp add: failure_def)

lemma extract_enhanced_fails:
  assumes "docling_always_fails E" and "filename file = Some name"
  shows "\<exists>r w'. extract_enhanced E file fo l w = (Inr r, w') \<and> \<not> success r
           \<and> cache w' = cache w \<and> enhanced_calls w' = enhanced_calls w"
proof -
  obtain ok w1 where c: "check_system_resources E w = (ok, w1)"
    by (cases "check_system_resources E w")
  have w1: "w1 = w\<lparr>checks := Suc (checks w)\<rparr>"
    using check_system_resources_world [of E w] c by simp
  obtain e where d: "docling E (conversions w1) name (data file) fo
      (case l of None \<Rightarrow> None | Some [] \<Rightarrow> None | Some (x # xs) \<Rightarrow> Some (x # xs)) = Raised e"
    using assms(1) unfolding docling_always_fails_def by blast
  show ?thesis
    using c w1 d assms(2)
    by (cases ok; cases e) (simp_all add: extract_enhanced_def Let_def failure_not_success)
qed

lemma process_file_enhanced_fails:
  assumes "docling_always_fails E" and "filename file = Some name"
    and "cache w (partial_make_key name ''ocr'') = None"
  shows "\<exists>r w'. process_file_enhanced E file fo l w = (Inr r, w') \<and> \<not> success r
           \<and> cache w' = cache w \<and> enhanced_calls w' = enhanced_calls w @ [(fo, l)]"
proof -
  let ?w0 = "w\<lparr>enhanced_calls := enhanced_calls w @ [(fo, l)]\<rparr>"
  let ?w1 = "?w0\<lparr>ticks := Suc (ticks ?w0)\<rparr>"
  have g: "partial_result_cache_get E (fmt (filename file)) ''ocr'' ?w0 = (None, ?w1)"
    using assms(2,3) by (simp add: partial_result_cache_get_miss fmt_def)
  have p: "process_file_enhanced E file fo l w = on_cache_miss E file fo l ?w1"
    using g by (simp add: process_file_enhanced_def Let_def)
  show ?thesis
  proof (cases "enhanced_processing_enabled E")
    case False
    then show ?thesis using p by (simp add: on_cache_miss_def failure_not_success)
  next
    case True
    from extract_enhanced_fails [OF assms(1,2), of fo l ?w1]
    obtain r w' where "extract_enhanced E file fo l ?w1 = (Inr r, w')" "\<not> success r"
      "cache w' = cache ?w1" "enhanced_calls w' = enhanced_calls ?w1" by blast
    then show ?thesis using p True by (simp add: on_cache_miss_def)
  qed
qed

lemma enhanced_attempts_fail:
  assumes "docling_always_fails E" and "filename file = Some name"
    and "cache w (partial_make_key name ''ocr'') = None"
  shows "\<exists>r w'. enhanced_attempts E file fo l w = (Inr r, w') \<and> \<not> success r
           \<and> cache w' = cache w
           \<and> enhanced_calls w' = enhanced_calls w @ [(fo, l), (True, Some (lang_or l [''en'']))]"
proof -
  from process_file_enhanced_fails [OF assms, of fo l]
  obtain r1 w1 where a: "process_file_enhanced E file fo l w = (Inr r1, w1)" "\<not> success r1"
    "cache w1 = cache w" "enhanced_calls w1 = enhanced_calls w @ [(fo, l)]" by blast
  have "cache w1 (partial_make_key name ''ocr'') = None" using a(3) assms(3) by simp
  from process_file_enhanced_fails [OF assms(1,2) this, of True "Some (lang_or l [''en''])"]
  obtain r2 w2 where b: "process_file_enhanced E file True (Some (lang_or l [''en''])) w1 = (Inr r2, w2)"
    "\<not> success r2" "cache w2 = cache w1"
    "enhanced_calls w2 = enhanced_calls w1 @ [(True, Some (lang_or l [''en'']))]" by blast
  show ?thesis using a b by (simp add: enhanced_attempts_def)
qed

lemma enhanced_attempts_calls:
  "\<exists>cs. enhanced_calls (snd (enhanced_attempts E file fo l w)) = enhanced_calls w @ (fo, l) # cs
         \<and> length cs \<le> 1 \<and> (\<forall>c\<in>set cs. fst c)"
proof -
  obtain r w1 where a: "process_file_enhanced E file fo l w = (r, w1)"
    by (cases "process_file_enhanced E file fo l w")
  have c1: "enhanced_calls w1 = enhanced_calls w @ [(fo, l)]"
    using process_file_enhanced_calls [of E "file" fo l w] a by simp
  have c2: "enhanced_calls (snd (process_file_enhanced E file True (Some (lang_or l [''en''])) w1))
              = enhanced_calls w @ [(fo, l), (True, Some (lang_or l [''en'']))]"
    using process_file_enhanced_calls [of E "file" True "Some (lang_or l [''en''])" w1] c1 by simp
  show ?thesis
    using a c1 c2 by (cases r) (auto simp: enhanced_attempts_def)
qed

lemma pdf_fallback_calls:
  "\<exists>cs. enhanced_calls (snd (pdf_fallback E file bs w)) = enhanced_calls w @ cs
         \<and> length cs \<le> 1 \<and> (\<forall>c\<in>set cs. fst c)"
proof -
  have c: "enhanced_calls (snd (process_file_enhanced E file True (Some [''eng'']) w))
             = enhanced_calls w @ [(True, Some [''eng''])]"
    by (rule process_file_enhanced_calls)
  show ?thesis
  proof (cases "process_file_enhanced E file True (Some [''eng'']) w")
    case (Pair r w1)
    then have "enhanced_calls w1 = enhanced_calls w @ [(True, Some [''eng''])]"
      using c by simp
    then show ?thesis using Pair
      by (cases r) (auto simp: pdf_fallback_def split: sum.splits)
  qed
qed

lemma basic_processing_calls:
  "\<exists>cs. enhanced_calls (snd (basic_processing E file bs ext w)) = enhanced_calls w @ cs
         \<and> length cs \<le> 1 \<and> (\<forall>c\<in>set cs. fst c) \<and> (ext = ''pdf'' \<longrightarrow> cs = [])"
proof -
  have c: "enhanced_calls (snd (process_file_enhanced E file True None w))
             = enhanced_calls w @ [(True, None)]"
    by (rule process_file_enhanced_calls)
  show ?thesis
  proof (cases "process_file_enhanced E file True None w")
    case (Pair r w1)
    then have "enhanced_calls w1 = enhanced_calls w @ [(True, None)]"
      using c by simp
    then show ?thesis using Pair
      by (cases r) (auto simp: basic_processing_def split: outcome.splits exn.splits)
  qed
qed

lemma basic_fallback_calls:
  "\<exists>cs. enhanced_calls (snd (basic_fallback E file bs ext w)) = enhanced_calls w @ cs
         \<and> length cs \<le> 1 \<and> (\<forall>c\<in>set cs. fst c)"
proof (cases "ext = ''pdf''")
  case False
  then show ?thesis
    using basic_processing_calls [of E "file" bs ext w] by (auto simp: basic_fallback_def)
next
  case True
  obtain r w1 where p: "pdf_fallback E file bs w = (r, w1)"
    by (cases "pdf_fallback E file bs w")
  from pdf_fallback_calls [of E "file" bs w] p
  obtain cs where cs: "enhanced_calls w1 = enhanced_calls w @ cs" "length cs \<le> 1" "\<forall>c\<in>set cs. fst c"
    by auto
  show ?thesis
  proof (cases r)
    case (Some a)
    then show ?thesis using True p cs by (auto simp: basic_fallback_def)
  next
    case None
    from basic_processing_calls [of E "file" bs ext w1] True
    have "enhanced_calls (snd (basic_processing E file bs ext w1)) = enhanced_calls w1" by auto
    then show ?thesis using True p cs None by (auto simp: basic_fallback_def)
  qed
qed

lemma process_file_calls:
  "\<exists>cs. enhanced_calls (snd (process_file E file fo l w)) = enhanced_calls w @ cs
         \<and> length cs \<le> 3 \<and> (\<forall>c\<in>set cs. fst c \<or> c = (effective_force_ocr file fo, l))"
proof (cases "should_use_enhanced_processing E file (effective_force_ocr file fo)")
  case False
  then show ?thesis
    using basic_processing_calls [of E "file" "data file" "file_ext file" w]
    by (auto simp: process_file_def Let_def)
next
  case True
  let ?f = "effective_force_ocr file fo"
  obtain r w1 where a: "enhanced_attempts E file ?f l w = (r, w1)"
    by (cases "enhanced_attempts E file ?f l w")
  from enhanced_attempts_calls [of E "file" ?f l w] a
  obtain cs where cs: "enhanced_calls w1 = enhanced_calls w @ (?f, l) # cs" "length cs \<le> 1"
    "\<forall>c\<in>set cs. fst c" by auto
  from basic_fallback_calls [of E "file" "data file" "file_ext file" w1]
  obtain ds where ds: "enhanced_calls (snd (basic_fallback E file (data file) (file_ext file) w1))
      = enhanced_calls w1 @ ds" "length ds \<le> 1" "\<forall>c\<in>set ds. fst c" by auto
  have "enhanced_calls (snd (process_file E file fo l w)) = enhanced_calls w @ ((?f, l) # cs)
      \<or> enhanced_calls (snd (process_file E file fo l w)) = enhanced_calls w @ ((?f, l) # cs @ ds)"
    using True a cs(1) ds(1) by (cases r) (auto simp: process_file_def Let_def)
  then show ?thesis
  proof
    assume "enhanced_calls (snd (process_file E file fo l w)) = enhanced_calls w @ ((?f, l) # cs)"
    then show ?thesis using cs(2,3) by (intro exI [of _ "(?f, l) # cs"]) auto
  next
    assume "enhanced_calls (snd (process_file E file fo l w)) = enhanced_calls w @ ((?f, l) # cs @ ds)"
    then show ?thesis using cs(2,3) ds(2,3) by (intro exI [of _ "(?f, l) # cs @ ds"]) auto
  qed
qed

section \<open>process\_file: routing, retry, fallback and the cache\<close>




lemma file_ext_pdf_named: "file_ext file = ''pdf'' \<Longrightarrow> \<exists>name. filename file = Some name"
  by (cases "filename file") (simp_all add: file_ext_def)

text \<open>
  C5: for a file whose extension is \<open>pdf\<close>, the \<open>force_ocr\<close> value \<open>process_file\<close> works
  with is true: the caller's flag has no effect on the run, and every call of
  \<open>process_file_enhanced\<close> the run makes has \<open>force_ocr=True\<close>.
\<close>

theorem C5_pdf_forces_ocr:
  assumes "file_ext file = ''pdf''"
  shows "effective_force_ocr file force_ocr
       \<and> should_use_enhanced_processing E file (effective_force_ocr file force_ocr)
            = enhanced_processing_enabled E
       \<and> process_file E file force_ocr l w = process_file E file True l w
       \<and> (\<exists>cs. enhanced_calls (snd (process_file E file force_ocr l w)) = enhanced_calls w @ cs
                \<and> (\<forall>c\<in>set cs. fst c))"
proof -
  have f: "effective_force_ocr file force_ocr" "effective_force_ocr file True"
    using assms by (simp_all add: effective_force_ocr_def)
  have s: "should_use_enhanced_processing E file (effective_force_ocr file force_ocr)
             = enhanced_processing_enabled E"
    using f(1) by (simp add: should_use_enhanced_processing_def)
  have p: "process_file E file force_ocr l w = process_file E file True l w"
    using f by (simp add: process_file_def)
  from process_file_calls [of E "file" force_ocr l w]
  obtain cs where cs: "enhanced_calls (snd (process_file E file force_ocr l w)) = enhanced_calls w @ cs"
    "\<forall>c\<in>set cs. fst c \<or> c = (effective_force_ocr file force_ocr, l)" by blast
  have "\<forall>c\<in>set cs. fst c" using cs(2) f(1) by auto
  then have "\<exists>cs. enhanced_calls (snd (process_file E file force_ocr l w)) = enhanced_calls w @ cs
                \<and> (\<forall>c\<in>set cs. fst c)" using cs(1) by blast
  with f(1) s p show ?thesis by (intro conjI)
qed


lemma prefix_strip:
  assumes "prefix p t" and "p \<noteq> []" and "\<not> is_space (hd p)" and "\<not> is_space (last p)"
  shows "prefix p (strip t)"
proof -
  from assms(1) obtain u where t: "t = p @ u" by (auto simp: prefix_def)
  obtain x xs where p: "p = x # xs" using assms(2) by (cases p) auto
  have l: "lstrip t = t" using t p assms(3) by (simp add: lstrip_def)
  have keep: "dropWhile is_space ys = ys" if "ys \<noteq> []" and "\<not> is_space (hd ys)" for ys
    using that by (cases ys) auto
  have "rev p \<noteq> []" and "\<not> is_space (hd (rev p))"
    using assms(2,4) by (simp_all add: hd_rev)
  then have d: "dropWhile is_space (rev p) = rev p"
    by (rule keep)
  have "\<exists>v. dropWhile is_space (rev u @ rev p) = v @ rev p"
  proof (cases "\<forall>c\<in>set (rev u). is_space c")
    case True
    then have "dropWhile is_space (rev u @ rev p) = dropWhile is_space (rev p)"
      by (intro dropWhile_append2) auto
    then show ?thesis using d by simp
  next
    case False
    then obtain c where "c \<in> set (rev u)" "\<not> is_space c" by blast
    then have "dropWhile is_space (rev u @ rev p) = dropWhile is_space (rev u) @ rev p"
      by (rule dropWhile_append1)
    then show ?thesis by blast
  qed
  then obtain v where "dropWhile is_space (rev t) = v @ rev p" using t by auto
  then have "rstrip t = p @ rev v" by (simp add: rstrip_def)
  then show ?thesis using l by (simp add: strip_def)
qed

lemma marker_strip:
  assumes "prefix scanned_marker t"
  shows "prefix ''This appears to be a scanned PDF'' (strip t)"
proof -
  have "prefix ''This appears to be a scanned PDF'' scanned_marker"
    by (simp add: scanned_marker_def)
  then have "prefix ''This appears to be a scanned PDF'' t"
    using assms by (rule prefix_order.trans)
  then show ?thesis
    by (rule prefix_strip) (simp_all add: is_space_def)
qed

lemma fallback_text_of_fallback:
  "pypdf2 E bs = Returned pages \<Longrightarrow>
     \<exists>d. fallback_pdf_processing E file bs = Inr d \<and> fallback_text_of d = pdf_text_content pages"
  by (simp add: fallback_pdf_processing_def fallback_text_of_def Let_def)

text \<open>
  C4: for a PDF with Docling available, no cached result and a conversion that raises on
  every call, whose PyPDF2 text begins with the scanned-PDF marker, \<open>process_file\<close> makes
  exactly one more call of \<open>process_file_enhanced\<close> after the two failed attempts, with
  \<open>force_ocr=True\<close> and \<open>['eng']\<close>, and returns the PyPDF2 result, to which the error of
  that last call is added under \<open>docling_error\<close>.
\<close>

theorem C4_scanned_pdf_second_chance:
  assumes "file_ext file = ''pdf''"
    and "enhanced_processing_enabled E"
    and "cache w (partial_make_key (fmt (filename file)) ''ocr'') = None"
    and "docling_always_fails E"
    and "pypdf2 E (data file) = Returned pages"
    and "prefix scanned_marker (pdf_text_content pages)"
  shows "\<exists>fallback_result (r :: processing_result) w'.
           fallback_pdf_processing E file (data file) = Inr fallback_result
         \<and> \<not> success r
         \<and> process_file E file force_ocr l w
             = (Inr (item_set fallback_result ''docling_error'' (opt_str (error_message r))), w')
         \<and> enhanced_calls w' = enhanced_calls w @
              [(True, l), (True, Some (lang_or l [''en''])), (True, Some [''eng''])]"
proof -
  from file_ext_pdf_named [OF assms(1)] obtain name where name: "filename file = Some name" ..
  have key: "cache w (partial_make_key name ''ocr'') = None"
    using assms(3) name by (simp add: fmt_def)
  have f: "effective_force_ocr file force_ocr = True"
    using assms(1) by (simp add: effective_force_ocr_def)
  have s: "should_use_enhanced_processing E file True"
    using assms(2) by (simp add: should_use_enhanced_processing_def)
  from enhanced_attempts_fail [OF assms(4) name key, of True l]
  obtain r2 w2 where a: "enhanced_attempts E file True l w = (Inr r2, w2)" "\<not> success r2"
    "cache w2 = cache w"
    "enhanced_calls w2 = enhanced_calls w @ [(True, l), (True, Some (lang_or l [''en'']))]"
    by blast
  have p: "process_file E file force_ocr l w = basic_fallback E file (data file) ''pdf'' w2"
    using f s a(1,2) assms(1) by (simp add: process_file_def)
  from fallback_text_of_fallback [OF assms(5), of "file"]
  obtain d where d: "fallback_pdf_processing E file (data file) = Inr d"
    "fallback_text_of d = pdf_text_content pages" by blast
  have m: "prefix ''This appears to be a scanned PDF'' (strip (fallback_text_of d))"
    using marker_strip [OF assms(6)] d(2) by simp
  have "cache w2 (partial_make_key name ''ocr'') = None" using a(3) key by simp
  from process_file_enhanced_fails [OF assms(4) name this, of True "Some [''eng'']"]
  obtain r3 w3 where b: "process_file_enhanced E file True (Some [''eng'']) w2 = (Inr r3, w3)"
    "\<not> success r3" "enhanced_calls w3 = enhanced_calls w2 @ [(True, Some [''eng''])]" by blast
  have "pdf_fallback E file (data file) w2
          = (Some (item_set d ''docling_error'' (opt_str (error_message r3))), w3)"
    using d(1) m assms(2) b(1,2) by (simp add: pdf_fallback_def)
  then have "process_file E file force_ocr l w
          = (Inr (item_set d ''docling_error'' (opt_str (error_message r3))), w3)"
    using p by (simp add: basic_fallback_def)
  moreover have "enhanced_calls w3 = enhanced_calls w @
              [(True, l), (True, Some (lang_or l [''en''])), (True, Some [''eng''])]"
    using a(4) b(3) by simp
  ultimately have c: "fallback_pdf_processing E file (data file) = Inr d
         \<and> \<not> success r3
         \<and> process_file E file force_ocr l w
             = (Inr (item_set d ''docling_error'' (opt_str (error_message r3))), w3)
         \<and> enhanced_calls w3 = enhanced_calls w @
              [(True, l), (True, Some (lang_or l [''en''])), (True, Some [''eng''])]"
    using d(1) b(2) by simp
  from c show ?thesis by blast
qed

lemma process_file_enhanced_insufficient:
  assumes "enhanced_processing_enabled E"
    and "cache w (partial_make_key (fmt (filename file)) ''ocr'') = None"
    and "\<not> fst (check_system_resources E w)"
  shows "process_file_enhanced E file fo l w
           = (Inr (failure ''Insufficient system resources for enhanced processing'' True),
              w\<lparr>enhanced_calls := enhanced_calls w @ [(fo, l)],
                ticks := Suc (ticks w), checks := Suc (checks w)\<rparr>)"
proof -
  let ?w0 = "w\<lparr>enhanced_calls := enhanced_calls w @ [(fo, l)]\<rparr>"
  let ?w1 = "?w0\<lparr>ticks := Suc (ticks ?w0)\<rparr>"
  have g: "partial_result_cache_get E (fmt (filename file)) ''ocr'' ?w0 = (None, ?w1)"
    using assms(2) by (simp add: partial_result_cache_get_miss)
  have "fst (check_system_resources E ?w1) = fst (check_system_resources E w)"
    by (rule check_system_resources_cong) simp
  then have "check_system_resources E ?w1 = (False, ?w1\<lparr>checks := Suc (checks ?w1)\<rparr>)"
    using assms(3) check_system_resources_world [of E ?w1]
    by (cases "check_system_resources E ?w1") simp
  then have "extract_enhanced E file fo l ?w1
      = (Inr (failure ''Insufficient system resources for enhanced processing'' True),
         ?w1\<lparr>checks := Suc (checks ?w1)\<rparr>)"
    by (simp add: extract_enhanced_def)
  then show ?thesis
    using g assms(1) by (simp add: process_file_enhanced_def Let_def on_cache_miss_def)
qed

text \<open>
  C1, amended: when the resource check reports insufficient resources (Docling available,
  no cached result), \<open>process_file_enhanced\<close> returns a failed result with the
  resource-exhaustion error; no conversion is started and nothing is cached. In
  \<open>process_file\<close> that failure is handled like every other enhanced failure: the call is
  retried once and, when the check fails again, the run goes on with the fallback for the
  file.
\<close>

theorem C1_insufficient_resources:
  assumes "enhanced_processing_enabled E"
    and "cache w (partial_make_key (fmt (filename file)) ''ocr'') = None"
    and "\<not> fst (check_system_resources E w)"
  shows "process_file_enhanced E file fo l w
           = (Inr (failure ''Insufficient system resources for enhanced processing'' True),
              w\<lparr>enhanced_calls := enhanced_calls w @ [(fo, l)],
                ticks := Suc (ticks w), checks := Suc (checks w)\<rparr>)
       \<and> (should_use_enhanced_processing E file (effective_force_ocr file force_ocr)
            \<and> \<not> fst (check_system_resources E (w\<lparr>checks := Suc (checks w)\<rparr>))
          \<longrightarrow> process_file E file force_ocr l w
                = basic_fallback E file (data file) (file_ext file)
                    (w\<lparr>enhanced_calls := enhanced_calls w @
                          [(effective_force_ocr file force_ocr, l), (True, Some (lang_or l [''en'']))],
                       ticks := Suc (Suc (ticks w)), checks := Suc (Suc (checks w))\<rparr>))"
proof (intro conjI impI)
  show "process_file_enhanced E file fo l w
           = (Inr (failure ''Insufficient system resources for enhanced processing'' True),
              w\<lparr>enhanced_calls := enhanced_calls w @ [(fo, l)],
                ticks := Suc (ticks w), checks := Suc (checks w)\<rparr>)"
    by (rule process_file_enhanced_insufficient [OF assms])
next
  let ?f = "effective_force_ocr file force_ocr"
  let ?w1 = "w\<lparr>enhanced_calls := enhanced_calls w @ [(?f, l)],
                ticks := Suc (ticks w), checks := Suc (checks w)\<rparr>"
  assume h: "should_use_enhanced_processing E file ?f
            \<and> \<not> fst (check_system_resources E (w\<lparr>checks := Suc (checks w)\<rparr>))"
  have a: "process_file_enhanced E file ?f l w
      = (Inr (failure ''Insufficient system resources for enhanced processing'' True), ?w1)"
    by (rule process_file_enhanced_insufficient [OF assms])
  have "fst (check_system_resources E ?w1)
          = fst (check_system_resources E (w\<lparr>checks := Suc (checks w)\<rparr>))"
    by (rule check_system_resources_cong) simp
  then have c: "\<not> fst (check_system_resources E ?w1)" using h by simp
  have k: "cache ?w1 (partial_make_key (fmt (filename file)) ''ocr'') = None"
    using assms(2) by simp
  have b: "process_file_enhanced E file True (Some (lang_or l [''en''])) ?w1
      = (Inr (failure ''Insufficient system resources for enhanced processing'' True),
         ?w1\<lparr>enhanced_calls := enhanced_calls ?w1 @ [(True, Some (lang_or l [''en'']))],
                ticks := Suc (ticks ?w1), checks := Suc (checks ?w1)\<rparr>)"
    by (rule process_file_enhanced_insufficient [OF assms(1) k c])
  show "process_file E file force_ocr l w
                = basic_fallback E file (data file) (file_ext file)
                    (w\<lparr>enhanced_calls := enhanced_calls w @
                          [(?f, l), (True, Some (lang_or l [''en'']))],
                       ticks := Suc (Suc (ticks w)), checks := Suc (Suc (checks w))\<rparr>)"
    using h a b by (simp add: process_file_def enhanced_attempts_def failure_not_success)
qed

text \<open>
  C3, amended: for a file whose extension is outside the supported set, when the caller's
  \<open>force_ocr\<close> is false or Docling is not available, \<open>process_file\<close> raises
  \<open>ValueError("Unsupported file type: <ext>")\<close> and touches nothing: no call of
  \<open>process_file_enhanced\<close>, no conversion, no cache access.
\<close>

theorem C3_unsupported_extension:
  assumes "file_ext file \<notin> set supported_extensions"
    and "\<not> (force_ocr \<and> enhanced_processing_enabled E)"
  shows "process_file E file force_ocr l w
           = (Inl (ValueError (''Unsupported file type: '' @ file_ext file)), w)"
proof -
  have x: "file_ext file \<notin> set enhanced_formats" "file_ext file \<noteq> ''pdf''"
    using assms(1) by (auto simp: supported_extensions_def)
  have f: "effective_force_ocr file force_ocr = force_ocr"
    using x(2) by (simp add: effective_force_ocr_def)
  have s: "\<not> should_use_enhanced_processing E file force_ocr"
    using assms(2) x(1) by (auto simp: should_use_enhanced_processing_def)
  have "basic_processing E file (data file) (file_ext file) w
          = (Inl (ValueError (''Unsupported file type: '' @ file_ext file)), w)"
    using assms(1) by (simp add: basic_processing_def supported_extensions_def enhanced_formats_def)
  then show ?thesis using f s by (simp add: process_file_def)
qed

lemma cache_ok_get:
  "cache_ok c \<Longrightarrow> cache_ok (snd (cache_get c k now))"
  by (auto simp: cache_ok_def cache_get_def split: option.splits if_splits)

lemma cache_get_none: "cache_get c k now = (None, c') \<Longrightarrow> c' k = None"
  by (auto simp: cache_get_def split: option.splits if_splits)

lemma cache_get_some:
  "cache_get c k now = (Some v, c') \<Longrightarrow> c' = c \<and> (\<exists>t e. c k = Some (v, t, e))"
  by (auto simp: cache_get_def split: option.splits if_splits)

lemma cache_ok_set_result:
  "cache_ok c \<Longrightarrow> success r \<Longrightarrow> cache_ok (cache_set c k (CachedResult r) ttl t1 t2)"
  by (auto simp: cache_ok_def cache_set_def Let_def split: if_splits)

lemma docling_result_success: "success (docling_result file bs fo l md dt)"
  by (simp add: docling_result_def)

lemma extract_enhanced_cache:
  assumes "extract_enhanced E file fo l w = (res, w')"
  shows "(cache_ok (cache w) \<longrightarrow> cache_ok (cache w'))
       \<and> (\<forall>r. res = Inr r \<and> \<not> success r \<longrightarrow> cache w' = cache w)"
proof -
  obtain ok w1 where c: "check_system_resources E w = (ok, w1)"
    by (cases "check_system_resources E w")
  have w1: "w1 = w\<lparr>checks := Suc (checks w)\<rparr>"
    using check_system_resources_world [of E w] c by simp
  show ?thesis
  proof (cases "ok \<and> filename file \<noteq> None")
    case False
    then show ?thesis using assms c w1
      by (cases ok) (auto simp: extract_enhanced_def)
  next
    case True
    then obtain name where name: "filename file = Some name" by auto
    let ?lang = "case l of None \<Rightarrow> None | Some [] \<Rightarrow> None | Some (x # xs) \<Rightarrow> Some (x # xs)"
    show ?thesis
    proof (cases "docling E (conversions w1) name (data file) fo ?lang")
      case (Raised e)
      then show ?thesis using assms c w1 True name
        by (cases e) (auto simp: extract_enhanced_def Let_def)
    next
      case (Returned md)
      obtain m dt where md: "md = (m, dt)" by (cases md)
      have "cache_ok (cache w) \<Longrightarrow> cache_ok (cache w')"
        using assms c w1 True name Returned md
        by (auto simp: extract_enhanced_def Let_def partial_result_cache_set_def partial_cache_set_def
            intro!: cache_ok_set_result docling_result_success)
      moreover have "res = Inr (docling_result file (data file) fo l m dt)"
        using assms c w1 True name Returned md by (auto simp: extract_enhanced_def Let_def)
      ultimately show ?thesis using docling_result_success by auto
    qed
  qed
qed

lemma on_cache_miss_cache:
  assumes "on_cache_miss E file fo l w = (res, w')"
  shows "(cache_ok (cache w) \<longrightarrow> cache_ok (cache w'))
       \<and> (\<forall>r. res = Inr r \<and> \<not> success r \<longrightarrow> cache w' = cache w)"
proof (cases "enhanced_processing_enabled E")
  case True
  then show ?thesis using assms extract_enhanced_cache [of E "file" fo l w res w']
    by (simp add: on_cache_miss_def)
next
  case False
  then show ?thesis using assms by (auto simp: on_cache_miss_def)
qed

lemma process_file_enhanced_miss:
  "cache w (partial_make_key (fmt (filename file)) ''ocr'') = None \<Longrightarrow>
     process_file_enhanced E file fo l w
       = on_cache_miss E file fo l
           (w\<lparr>enhanced_calls := enhanced_calls w @ [(fo, l)], ticks := Suc (ticks w)\<rparr>)"
  by (simp add: process_file_enhanced_def Let_def partial_result_cache_get_miss)

text \<open>
  C10: \<open>process_file_enhanced\<close> keeps the cache free of failed results. If every
  extraction result in the cache is a success (and answers sit only under answer keys)
  before a call, the same holds after it; and when the call returns a failed result, the
  cache has no entry under the file's \<open>(file_id, 'ocr')\<close> key afterwards, so that a later
  call for the same file misses the cache and runs the extraction path again.
\<close>

theorem C10_only_successes_cached:
  assumes "cache_ok (cache w)"
    and "process_file_enhanced E file fo l w = (res, w')"
  shows "cache_ok (cache w')
       \<and> (\<forall>r. res = Inr r \<and> \<not> success r \<longrightarrow>
            cache w' (partial_make_key (fmt (filename file)) ''ocr'') = None
          \<and> process_file_enhanced E file fo2 l2 w'
              = on_cache_miss E file fo2 l2
                  (w'\<lparr>enhanced_calls := enhanced_calls w' @ [(fo2, l2)], ticks := Suc (ticks w')\<rparr>))"
proof -
  let ?key = "partial_make_key (fmt (filename file)) ''ocr''"
  let ?w0 = "w\<lparr>enhanced_calls := enhanced_calls w @ [(fo, l)]\<rparr>"
  obtain g w1 where g: "partial_result_cache_get E (fmt (filename file)) ''ocr'' ?w0 = (g, w1)"
    by (cases "partial_result_cache_get E (fmt (filename file)) ''ocr'' ?w0")
  have cg: "cache_get (cache w) ?key (clock E (ticks w)) = (g, cache w1)"
    using g by (auto simp: partial_result_cache_get_def partial_cache_get_def split: prod.splits)
  have ok1: "cache_ok (cache w1)"
    using cache_ok_get [OF assms(1), of ?key "clock E (ticks w)"] cg by simp
  have pre: "prefix ''partial:'' ?key" by (simp add: partial_make_key_def)
  show ?thesis
  proof (cases g)
    case None
    then have k1: "cache w1 ?key = None"
      using cg cache_get_none by fastforce
    have m: "on_cache_miss E file fo l w1 = (res, w')"
      using assms(2) g None by (simp add: process_file_enhanced_def Let_def)
    from on_cache_miss_cache [OF m] ok1
    have a: "cache_ok (cache w')" and b: "\<forall>r. res = Inr r \<and> \<not> success r \<longrightarrow> cache w' = cache w1"
      by simp_all
    show ?thesis
    proof (intro conjI allI impI)
      show "cache_ok (cache w')" by (rule a)
    next
      fix r assume "res = Inr r \<and> \<not> success r"
      then show "cache w' ?key = None" using b k1 by simp
      then show "process_file_enhanced E file fo2 l2 w'
              = on_cache_miss E file fo2 l2
                  (w'\<lparr>enhanced_calls := enhanced_calls w' @ [(fo2, l2)], ticks := Suc (ticks w')\<rparr>)"
        by (rule process_file_enhanced_miss)
    qed
  next
    case (Some v)
    then have in_c: "\<exists>t e. cache w ?key = Some (v, t, e)" and same: "cache w1 = cache w"
      using cg cache_get_some [of "cache w" ?key "clock E (ticks w)" v "cache w1"] by simp_all
    show ?thesis
    proof (cases v)
      case (CachedAnswer s)
      then have False using in_c assms(1) pre unfolding cache_ok_def by fastforce
      then show ?thesis ..
    next
      case (CachedResult r0)
      then have "success r0" using in_c assms(1) unfolding cache_ok_def by fastforce
      moreover have "res = Inr r0" "w' = w1"
        using assms(2) g Some CachedResult by (simp_all add: process_file_enhanced_def Let_def)
      ultimately show ?thesis using ok1 by auto
    qed
  qed
qed

lemma file_ext_a_pdf: "file_ext (named_file ''a.pdf'') = ''pdf''"
  by code_simp

lemma file_ext_file_xyz: "file_ext (named_file ''file.xyz'') = ''xyz''"
  by code_simp


lemmas run_defs =
  process_file_def constant_env_def fresh_world_def effective_force_ocr_def
  should_use_enhanced_processing_def enhanced_attempts_def process_file_enhanced_def
  Let_def partial_result_cache_get_def partial_cache_get_def cache_get_def fmt_def
  on_cache_miss_def extract_enhanced_def check_system_resources_def failure_def
  basic_fallback_def pdf_fallback_def fallback_pdf_processing_def pdf_text_content_def
  strip_def lstrip_def rstrip_def is_space_def fallback_text_of_def lang_or_def
  partial_make_key_def enhanced_formats_def basic_processing_def

text \<open>
  C1, as stated, fails at a concrete input: with no free memory at either resource check,
  \<open>process_file\<close> on \<open>a.pdf\<close> returns the successful PyPDF2 result, without any
  conversion having been started.
\<close>

theorem C1_downgraded_to_basic:
  "\<not> fst (check_system_resources starved_env fresh_world)
   \<and> \<not> fst (check_system_resources starved_env (fresh_world\<lparr>checks := 1\<rparr>))
   \<and> fst (process_file starved_env (named_file ''a.pdf'') False None fresh_world)
       = fallback_pdf_processing starved_env (named_file ''a.pdf'') ''bytes''
   \<and> fallback_pdf_processing starved_env (named_file ''a.pdf'') ''bytes''
       = Inr (PDict
           [(''success'', PBool True),
            (''content'', PDict
               [(''text_content'', PStr (''hello'' @ [CHR 0x0A])),
                (''extraction_method'', PStr ''pypdf2_fallback''),
                (''note'', PStr ''Extracted using basic PDF processing. For scanned documents, OCR processing is recommended.'')]),
            (''metadata'', PDict
               [(''file_name'', PStr ''a.pdf''),
                (''file_size'', PInt 5),
                (''format'', PStr ''pdf''),
                (''processing_method'', PStr ''pypdf2_fallback''),
                (''pages'', PInt 1),
                (''extracted_chars'', PInt 6)]),
            (''enhanced_processing'', PBool False)])
   \<and> conversions (snd (process_file starved_env (named_file ''a.pdf'') False None fresh_world)) = 0"
  by (simp add: run_defs starved_env_def file_ext_a_pdf) (simp add: named_file_def opt_str_def)

lemma xyz_unsupported: "file_ext (named_file ''file.xyz'') \<notin> set supported_extensions"
  by (simp add: file_ext_file_xyz supported_extensions_def enhanced_formats_def)

lemma docling_always_fails_failing_env: "docling_always_fails failing_env"
  by (simp add: docling_always_fails_def failing_env_def constant_env_def)

text \<open>
  C3, as stated, fails at a concrete input: with \<open>force_ocr=True\<close> and Docling
  available, \<open>process_file\<close> on \<open>file.xyz\<close> runs the conversion and returns its result.
\<close>

theorem C3_forced_ocr_runs_engine:
  "file_ext (named_file ''file.xyz'') \<notin> set supported_extensions
   \<and> fst (process_file working_env (named_file ''file.xyz'') True None fresh_world)
       = Inr (enhanced_response
                (docling_result (named_file ''file.xyz'') ''bytes'' True None ''text'' ''pdf''))
   \<and> enhanced_calls (snd (process_file working_env (named_file ''file.xyz'') True None fresh_world))
       = [(True, None)]
   \<and> conversions (snd (process_file working_env (named_file ''file.xyz'') True None fresh_world)) = 1"
proof -
  have "fst (process_file working_env (named_file ''file.xyz'') True None fresh_world)
       = Inr (enhanced_response
                (docling_result (named_file ''file.xyz'') ''bytes'' True None ''text'' ''pdf''))"
    by (simp add: run_defs working_env_def file_ext_file_xyz)
       (simp add: run_defs named_file_def docling_result_def partial_result_cache_set_def
          partial_cache_set_def cache_set_def)
  moreover have "enhanced_calls (snd (process_file working_env (named_file ''file.xyz'') True None fresh_world))
       = [(True, None)]"
    by (simp add: run_defs working_env_def file_ext_file_xyz)
       (simp add: run_defs named_file_def docling_result_def partial_result_cache_set_def
          partial_cache_set_def cache_set_def)
  moreover have "conversions (snd (process_file working_env (named_file ''file.xyz'') True None fresh_world)) = 1"
    by (simp add: run_defs working_env_def file_ext_file_xyz)
       (simp add: run_defs named_file_def docling_result_def partial_result_cache_set_def
          partial_cache_set_def cache_set_def)
  ultimately show ?thesis using xyz_unsupported by simp
qed

theorem C3_unsupported_extension_witness:
  "file_ext (named_file ''file.xyz'') \<notin> set supported_extensions
   \<and> process_file working_env (named_file ''file.xyz'') False None fresh_world
       = (Inl (ValueError ''Unsupported file type: xyz''), fresh_world)"
proof -
  have h: "\<not> (False \<and> enhanced_processing_enabled working_env)" by simp
  from C3_unsupported_extension [OF xyz_unsupported h, of None fresh_world]
  show ?thesis using xyz_unsupported by (simp add: file_ext_file_xyz)
qed

theorem C1_insufficient_resources_witness:
  "enhanced_processing_enabled starved_env
   \<and> cache fresh_world (partial_make_key (fmt (filename (named_file ''a.pdf''))) ''ocr'') = None
   \<and> \<not> fst (check_system_resources starved_env fresh_world)
   \<and> process_file_enhanced starved_env (named_file ''a.pdf'') False None fresh_world
       = (Inr (failure ''Insufficient system resources for enhanced processing'' True),
          fresh_world\<lparr>enhanced_calls := [(False, None)], ticks := 1, checks := 1\<rparr>)
   \<and> process_file starved_env (named_file ''a.pdf'') False None fresh_world
       = basic_fallback starved_env (named_file ''a.pdf'') ''bytes'' ''pdf''
           (fresh_world\<lparr>enhanced_calls := [(True, None), (True, Some [''en''])],
                        ticks := 2, checks := 2\<rparr>)"
proof -
  have a: "enhanced_processing_enabled starved_env"
    by (simp add: starved_env_def constant_env_def)
  have b: "cache fresh_world (partial_make_key (fmt (filename (named_file ''a.pdf''))) ''ocr'') = None"
    by (simp add: fresh_world_def)
  have c: "\<not> fst (check_system_resources starved_env fresh_world)"
    by (simp add: check_system_resources_def starved_env_def constant_env_def fresh_world_def)
  have d: "\<not> fst (check_system_resources starved_env (fresh_world\<lparr>checks := Suc (checks fresh_world)\<rparr>))"
    by (simp add: check_system_resources_def starved_env_def constant_env_def fresh_world_def)
  have e: "should_use_enhanced_processing starved_env (named_file ''a.pdf'')
             (effective_force_ocr (named_file ''a.pdf'') False)"
    using a by (simp add: should_use_enhanced_processing_def effective_force_ocr_def file_ext_a_pdf)
  have f: "effective_force_ocr (named_file ''a.pdf'') False = True"
    by (simp add: effective_force_ocr_def file_ext_a_pdf)
  from C1_insufficient_resources [OF a b c, of False None False]
  show ?thesis using a b c d e f
    by (simp add: file_ext_a_pdf lang_or_def)
       (simp add: fresh_world_def named_file_def numeral_2_eq_2)
qed

theorem C5_pdf_forces_ocr_witness:
  "file_ext (named_file ''a.pdf'') = ''pdf''
   \<and> effective_force_ocr (named_file ''a.pdf'') False
   \<and> process_file failing_env (named_file ''a.pdf'') False None fresh_world
       = process_file failing_env (named_file ''a.pdf'') True None fresh_world
   \<and> enhanced_calls (snd (process_file failing_env (named_file ''a.pdf'') False None fresh_world))
       = [(True, None), (True, Some [''en'']), (True, Some [''eng''])]"
proof -
  have "enhanced_calls (snd (process_file failing_env (named_file ''a.pdf'') False None fresh_world))
       = [(True, None), (True, Some [''en'']), (True, Some [''eng''])]"
    by (simp add: run_defs failing_env_def file_ext_a_pdf)
       (simp add: run_defs named_file_def scanned_marker_def item_set_def)
  then show ?thesis
    using C5_pdf_forces_ocr [OF file_ext_a_pdf, of False failing_env None fresh_world]
      file_ext_a_pdf by simp
qed


theorem C4_scanned_pdf_second_chance_witness:
  "file_ext (named_file ''a.pdf'') = ''pdf''
   \<and> enhanced_processing_enabled failing_env
   \<and> docling_always_fails failing_env
   \<and> pypdf2 failing_env ''bytes'' = Returned []
   \<and> prefix scanned_marker (pdf_text_content [])
   \<and> (\<exists>fallback_result (r :: processing_result) w'.
         fallback_pdf_processing failing_env (named_file ''a.pdf'') ''bytes'' = Inr fallback_result
       \<and> \<not> success r
       \<and> process_file failing_env (named_file ''a.pdf'') False None fresh_world
           = (Inr (item_set fallback_result ''docling_error'' (opt_str (error_message r))), w')
       \<and> enhanced_calls w' = [(True, None), (True, Some [''en'']), (True, Some [''eng''])])"
proof -
  have a: "enhanced_processing_enabled failing_env"
    by (simp add: failing_env_def constant_env_def)
  have b: "cache fresh_world (partial_make_key (fmt (filename (named_file ''a.pdf''))) ''ocr'') = None"
    by (simp add: fresh_world_def)
  have c: "pypdf2 failing_env (data (named_file ''a.pdf'')) = Returned []"
    by (simp add: failing_env_def constant_env_def)
  have d: "prefix scanned_marker (pdf_text_content [])"
    by (simp add: pdf_text_content_def strip_def lstrip_def rstrip_def)
  from C4_scanned_pdf_second_chance
    [OF file_ext_a_pdf a b docling_always_fails_failing_env c d, of False None]
  show ?thesis
    using file_ext_a_pdf a docling_always_fails_failing_env c d
    by (simp add: named_file_def fresh_world_def lang_or_def)
qed

theorem C10_only_successes_cached_witness:
  "cache_ok (cache fresh_world)
   \<and> fst (process_file_enhanced failing_env (named_file ''a.pdf'') False None fresh_world)
       = Inr (failure ''Enhanced processing error: boom'' True)
   \<and> \<not> success (failure ''Enhanced processing error: boom'' True)
   \<and> cache_ok (cache (snd (process_file_enhanced failing_env (named_file ''a.pdf'') False None fresh_world)))
   \<and> cache (snd (process_file_enhanced failing_env (named_file ''a.pdf'') False None fresh_world))
        (partial_make_key ''a.pdf'' ''ocr'') = None"
proof -
  let ?run = "process_file_enhanced failing_env (named_file ''a.pdf'') False None fresh_world"
  have a: "cache_ok (cache fresh_world)"
    by (simp add: cache_ok_def fresh_world_def)
  have b: "?run = (fst ?run, snd ?run)" by simp
  have c: "fst ?run = Inr (failure ''Enhanced processing error: boom'' True)"
    by (simp add: run_defs failing_env_def named_file_def)
  have d: "\<not> success (failure ''Enhanced processing error: boom'' True)"
    by (rule failure_not_success)
  from C10_only_successes_cached [OF a b, of True None] c d
  show ?thesis using a by (simp add: named_file_def fmt_def)
qed

section \<open>The context builder\<close>

lemma chat_completion_api_error:
  assumes "openai_model svc = Returned m" and "create svc messages = ApiError e"
    and "\<not> contains ''insufficient_quota'' e" and "\<not> contains ''429'' e"
  shows "chat_completion svc messages
           = Inr (Some (''I apologize, but I'm experiencing technical difficulties: '' @ e))"
  using assms by (simp add: chat_completion_def)

lemma build_context_api_error:
  assumes "openai_model svc = Returned m" and "\<forall>messages. create svc messages = ApiError e"
    and "\<not> contains ''insufficient_quota'' e" and "\<not> contains ''429'' e"
    and "2000 < length file_content_str"
  shows "build_context svc name file_content_str
           = context_frame name (''I apologize, but I'm experiencing technical difficulties: '' @ e)
               @ [CHR 0x0A] @ ''[NOTE: File content summarized for token limit.]''"
proof -
  have "summarize_text svc (take 8000 file_content_str)
          = Some (''I apologize, but I'm experiencing technical difficulties: '' @ e)"
    unfolding summarize_text_def Let_def
    by (subst chat_completion_api_error [OF assms(1) _ assms(3,4)]) (simp_all add: assms(2))
  then show ?thesis using assms(5) by (simp add: build_context_def)
qed

lemma build_context_escaped_exception:
  assumes "openai_model svc = Raised e" and "2000 < length file_content_str"
  shows "build_context svc name file_content_str
           = context_frame name (take 2000 file_content_str)
               @ [CHR 0x0A] @ ''[NOTE: File content truncated for token limit.]''"
  using assms by (simp add: build_context_def summarize_text_def chat_completion_def)

lemma build_context_no_content:
  assumes "openai_model svc = Returned m" and "\<forall>messages. create svc messages = Content None"
    and "2000 < length file_content_str"
  shows "build_context svc name file_content_str
           = context_frame name (take 2000 file_content_str)
               @ [CHR 0x0A] @ ''[NOTE: File content truncated for token limit.]''"
  using assms by (simp add: build_context_def summarize_text_def chat_completion_def)

text \<open>
  C9 at a failing input: a file text of 2001 characters and a client that raises on every
  call. The apology text of \<open>chat_completion\<close> is taken for the summary and marked as
  one; the context is not the first 2000 characters with the truncation note.
\<close>

theorem C9_api_error_is_used_as_summary:
  "build_context unreachable_service ''f.txt'' (replicate 2001 CHR ''a'')
     = context_frame ''f.txt''
         ''I apologize, but I'm experiencing technical difficulties: Connection error.''
       @ [CHR 0x0A] @ ''[NOTE: File content summarized for token limit.]''
   \<and> build_context unreachable_service ''f.txt'' (replicate 2001 CHR ''a'')
     \<noteq> context_frame ''f.txt'' (replicate 2000 CHR ''a'')
       @ [CHR 0x0A] @ ''[NOTE: File content truncated for token limit.]''"
proof -
  have c: "\<not> contains ''insufficient_quota'' ''Connection error.''"
    "\<not> contains ''429'' ''Connection error.''"
    by simp_all
  have m: "openai_model unreachable_service = Returned ''gpt''"
    and a: "\<forall>messages. create unreachable_service messages = ApiError ''Connection error.''"
    by (simp_all add: unreachable_service_def)
  have l: "2000 < length (replicate 2001 CHR ''a'')" by simp
  have b: "build_context unreachable_service ''f.txt'' (replicate 2001 CHR ''a'')
     = context_frame ''f.txt''
         (''I apologize, but I'm experiencing technical difficulties: '' @ ''Connection error.'')
       @ [CHR 0x0A] @ ''[NOTE: File content summarized for token limit.]''"
    by (rule build_context_api_error [OF m a c l])
  show ?thesis unfolding b by (simp add: context_frame_def)
qed

section \<open>The query fingerprint and the answer cache\<close>

lemma replicate_numeral_unfold: "replicate (numeral k) x = x # replicate (pred_numeral k) x"
  by (simp add: numeral_eq_Suc)

lemmas sha_defs =
  compress_def sha256_k_def sha256_h0_def step_def temp1_def temp2_def next_word_def
  bsig0_def bsig1_def ch_def maj_def ssig0_def ssig1_def rotr_def shr_def add32_def not32_def

lemma query_words_one_blank:
  "be_words (sha256_pad (utf8_encode (query_str ''a b''))) =
     [1629512320, 0, 0, 0,
     0, 0, 0, 0,
     0, 0, 0, 0,
     0, 0, 0, 24]"
  by (simp add: query_str_def strip_def lstrip_def rstrip_def is_space_def lower_def
      lower_char_def utf8_encode_def sha256_pad_def replicate_numeral_unfold)

lemma compress_one_blank:
  "compress sha256_h0
     [1629512320, 0, 0, 0,
     0, 0, 0, 0,
     0, 0, 0, 0,
     0, 0, 0, 24] =
     [3362290184, 2858249938, 71510266, 1785297592,
     3916284738, 2447950339, 1256768398, 1875668325]"
  by (simp add: sha_defs)

lemma query_hash_one_blank:
  "query_hash ''a b'' = ''c8687a08aa5d6ed2044328fa6a697ab8e96dc34291e8c2034ae8c38e6fcc6d65''"
  by (simp add: query_hash_def sha256_def query_words_one_blank compress_one_blank)
     (simp add: hexdigest_def hex_word_def hex_digit_def)

lemma query_words_two_blanks:
  "be_words (sha256_pad (utf8_encode (query_str ''a  b''))) =
     [1629495394, 2147483648, 0, 0,
     0, 0, 0, 0,
     0, 0, 0, 0,
     0, 0, 0, 32]"
  by (simp add: query_str_def strip_def lstrip_def rstrip_def is_space_def lower_def
      lower_char_def utf8_encode_def sha256_pad_def replicate_numeral_unfold)

lemma compress_two_blanks:
  "compress sha256_h0
     [1629495394, 2147483648, 0, 0,
     0, 0, 0, 0,
     0, 0, 0, 0,
     0, 0, 0, 32] =
     [1846729587, 546989777, 1202092565, 2257312587,
     2330295176, 1296511281, 191035434, 2103927070]"
  by (simp add: sha_defs)

lemma query_hash_two_blanks:
  "query_hash ''a  b'' = ''6e12db73209a66d147a67a15868bdb4b8ae57b884d4731310b62f82a7d67611e''"
  by (simp add: query_hash_def sha256_def query_words_two_blanks compress_two_blanks)
     (simp add: hexdigest_def hex_word_def hex_digit_def)

lemma is_space_lower_char: "is_space (lower_char c) = is_space c"
proof -
  have "of_char c + 32 < (256::nat)" if "of_char c \<le> (222::nat)"
    using that by simp
  then show ?thesis
    by (auto simp: is_space_def lower_char_def Let_def)
qed

lemma dropWhile_lower: "dropWhile is_space (lower s) = lower (dropWhile is_space s)"
  by (induction s) (simp_all add: lower_def is_space_lower_char)

lemma strip_lower: "strip (lower s) = lower (strip s)"
proof -
  have l: "lstrip (lower s) = lower (lstrip s)" for s
    by (simp add: lstrip_def dropWhile_lower)
  have r: "rstrip (lower s) = lower (rstrip s)" for s
  proof -
    have "rev (lower s) = lower (rev s)" for s by (simp add: lower_def rev_map)
    then show ?thesis by (simp add: rstrip_def dropWhile_lower)
  qed
  show ?thesis by (simp add: strip_def l r)
qed

lemma lstrip_padding: "list_all is_space l \<Longrightarrow> lstrip (l @ s) = lstrip s"
  unfolding lstrip_def by (rule dropWhile_append2) (simp add: list_all_iff)

lemma rstrip_padding: "list_all is_space r \<Longrightarrow> rstrip (s @ r) = rstrip s"
proof -
  assume "list_all is_space r"
  then have "dropWhile is_space (rev r @ rev s) = dropWhile is_space (rev s)"
    by (intro dropWhile_append2) (simp add: list_all_iff)
  then show ?thesis by (simp add: rstrip_def)
qed

lemma rstrip_all_space: "list_all is_space r \<Longrightarrow> rstrip r = []"
  using rstrip_padding [of r "[]"] by (simp add: rstrip_def)

lemma strip_padding:
  assumes "list_all is_space l" and "list_all is_space r"
  shows "strip (l @ core @ r) = strip core"
proof -
  have "rstrip (lstrip (core @ r)) = rstrip (lstrip core)"
  proof (cases "\<forall>c\<in>set core. is_space c")
    case True
    then have "lstrip core = []" "lstrip (core @ r) = lstrip r"
      by (simp_all add: lstrip_def)
    moreover have "list_all is_space (lstrip r)"
      using assms(2) unfolding lstrip_def list_all_iff by (meson set_dropWhileD)
    ultimately show ?thesis by (simp add: rstrip_all_space)
  next
    case False
    then obtain c where "c \<in> set core" "\<not> is_space c" by blast
    then have "lstrip (core @ r) = lstrip core @ r"
      unfolding lstrip_def by (rule dropWhile_append1)
    then show ?thesis by (simp add: rstrip_padding [OF assms(2)])
  qed
  then show ?thesis by (simp add: strip_def lstrip_padding [OF assms(1)])
qed

lemma query_str_same:
  assumes "same_up_to_case_and_padding a b"
  shows "query_str a = query_str b"
proof -
  from assms obtain l1 r1 l2 r2 core1 core2 where
    a: "a = l1 @ core1 @ r1" and b: "b = l2 @ core2 @ r2"
    and s: "list_all is_space (l1 @ r1 @ l2 @ r2)" and c: "lower core1 = lower core2"
    unfolding same_up_to_case_and_padding_def by blast
  have "query_str a = lower (strip core1)"
    using a s by (simp add: query_str_def strip_padding)
  also have "\<dots> = strip (lower core2)" using c by (simp add: strip_lower [symmetric])
  also have "\<dots> = query_str b"
    using b s by (simp add: query_str_def strip_padding strip_lower)
  finally show ?thesis .
qed

text \<open>
  C8, as stated, fails at a concrete input: \<open>a b\<close> and \<open>a  b\<close> have the same words and
  differ only in the run of blanks between them, yet their fingerprints differ, and an
  answer stored for the one is not found for the other.
\<close>

theorem C8_inner_whitespace_changes_hash:
  "same_up_to_case_and_whitespace ''a  b'' ''a b''
   \<and> query_hash ''a b'' = ''c8687a08aa5d6ed2044328fa6a697ab8e96dc34291e8c2034ae8c38e6fcc6d65''
   \<and> query_hash ''a  b'' = ''6e12db73209a66d147a67a15868bdb4b8ae57b884d4731310b62f82a7d67611e''
   \<and> query_hash ''a  b'' \<noteq> query_hash ''a b''
   \<and> fst (cached_response (store_response Map.empty ''chat'' ''a b'' ''answer'' 0 0)
            ''chat'' ''a  b'' 1) = None"
proof -
  have w: "same_up_to_case_and_whitespace ''a  b'' ''a b''"
    by (simp add: same_up_to_case_and_whitespace_def is_space_def)
  have n: "query_hash ''a  b'' \<noteq> query_hash ''a b''"
    by (simp add: query_hash_one_blank query_hash_two_blanks)
  have "fst (cached_response (store_response Map.empty ''chat'' ''a b'' ''answer'' 0 0)
            ''chat'' ''a  b'' 1) = None"
    by (simp add: cached_response_def store_response_def query_cache_get_def query_cache_set_def
        cache_get_def cache_set_def query_make_key_def query_hash_one_blank query_hash_two_blanks)
  then show ?thesis using w n query_hash_one_blank query_hash_two_blanks by simp
qed

text \<open>
  C8, amended: for two query strings that are the same up to the case of their letters and
  up to white space before and after them, \<open>send_message\<close> computes the same fingerprint
  and so the same answer-cache key; an answer that is not empty, stored for the first
  query, is the cached answer returned for the second at every clock value within the
  600 seconds of its ttl.
\<close>

theorem C8_fingerprint_ignores_case_and_padding:
  assumes "same_up_to_case_and_padding a b"
    and "answer \<noteq> []" and "0 \<le> t0" and "now \<le> t0 + 600"
  shows "query_hash a = query_hash b
       \<and> query_make_key chat_id (query_hash a) = query_make_key chat_id (query_hash b)
       \<and> cached_response (store_response c chat_id a answer t0 t1) chat_id b now
           = (Some (CachedAnswer answer), store_response c chat_id a answer t0 t1)"
proof -
  have h: "query_hash a = query_hash b"
    using query_str_same [OF assms(1)] by (simp add: query_hash_def)
  have "cached_response (store_response c chat_id a answer t0 t1) chat_id b now
           = (Some (CachedAnswer answer), store_response c chat_id a answer t0 t1)"
    using assms(2,3,4) h
    by (simp add: cached_response_def store_response_def query_cache_get_def query_cache_set_def
        cache_get_def cache_set_def)
  then show ?thesis using h by simp
qed

text \<open>
  The hit does not depend on the exact sum: it holds as well of the entry whose expiry
  is the float sum, at every double clock value within the 600 seconds.
\<close>

lemma cached_response_with_double_sum:
  assumes "same_up_to_case_and_padding a b"
    and "answer \<noteq> []" and "0 \<le> t0" and "is_double now" and "now \<le> t0 + 600"
  shows "cached_response (store_response_double c chat_id a answer t0 t1) chat_id b now
           = (Some (CachedAnswer answer), store_response_double c chat_id a answer t0 t1)"
proof -
  let ?key = "query_make_key chat_id (query_hash a)"
  have h: "query_hash b = query_hash a"
    using query_str_same [OF assms(1)] by (simp add: query_hash_def)
  have e: "fst (cache_get (cache_set c ?key (CachedAnswer answer) (Some 600) t0 t1) ?key now)
          = Some (CachedAnswer answer)"
    using assms(3,5) by (simp add: cache_get_def cache_set_def)
  have d: "(0::real) \<le> 600" by simp
  have "cache_get (cache_set_double c ?key (CachedAnswer answer) (Some 600) t0 t1) ?key now
          = (Some (CachedAnswer answer),
             cache_set_double c ?key (CachedAnswer answer) (Some 600) t0 t1)"
    by (rule cache_hit_with_double_sum [OF assms(3) d assms(4) e])
  then show ?thesis
    using assms(2) h
    by (simp add: cached_response_def store_response_double_def query_cache_get_def)
qed

theorem C8_fingerprint_ignores_case_and_padding_witness:
  "same_up_to_case_and_padding ''  What is X? '' ''what is x?''
   \<and> query_hash ''  What is X? '' = query_hash ''what is x?''
   \<and> cached_response (store_response Map.empty ''chat'' ''  What is X? '' ''answer'' 1000 1000)
         ''chat'' ''what is x?'' 1600
       = (Some (CachedAnswer ''answer''),
          store_response Map.empty ''chat'' ''  What is X? '' ''answer'' 1000 1000)"
proof -
  have l: "lower ''What is X?'' = lower ''what is x?''" by code_simp
  have "''  What is X? '' = ''  '' @ ''What is X?'' @ '' '' \<and> ''what is x?'' = [] @ ''what is x?'' @ []
      \<and> list_all is_space (''  '' @ '' '' @ [] @ []) \<and> lower ''What is X?'' = lower ''what is x?''"
    using l by (simp add: is_space_def)
  then have s: "same_up_to_case_and_padding ''  What is X? '' ''what is x?''"
    unfolding same_up_to_case_and_padding_def by blast
  have a: "''answer'' \<noteq> []" and b: "(0::real) \<le> 1000" and c: "(1600::real) \<le> 1000 + 600"
    by simp_all
  from C8_fingerprint_ignores_case_and_padding [OF s a b c, of "''chat''" Map.empty 1000]
  show ?thesis using s by simp
qed


end
